theory Spec2Isabelle
  imports Main "HOL-Library.Word" "HOL-Library.Signed_Division"
begin

section \<open>chessGo: a shallow embedding of main.go\<close>

text \<open>
  The development follows \<^verbatim>\<open>main.go\<close>: the piece table, the game record, the
  move notation (\<^verbatim>\<open>parseMove\<close> and the \<^verbatim>\<open>Sprintf\<close> of \<^verbatim>\<open>handleMouseClick\<close>),
  \<^verbatim>\<open>applyMove\<close>, the move generator and the two loops of \<^verbatim>\<open>play\<close>.

  Conventions. A Go \<^verbatim>\<open>string\<close> is a sequence of bytes: HOL's \<open>string\<close>, whose
  characters are bytes. A \<^verbatim>\<open>byte\<close> is an \<open>8 word\<close> and a \<^verbatim>\<open>rune\<close> a \<open>32 word\<close>, so
  their arithmetic wraps as Go's does. A Go \<^verbatim>\<open>int\<close> is modelled by \<open>int\<close>: every
  sum and difference of \<^verbatim>\<open>int\<close>s below is either taken on coordinates that an index
  check has already confined to \<open>0..7\<close>, or its result is dropped by the run-time panic
  of that index check; the one division is written with Go's truncation and wrap-around.
  A run-time panic is a value \<open>Inl e\<close>. The mutex \<^verbatim>\<open>lock\<close> is not a field of the
  model: a locked region is one function of the model.
\<close>

subsection \<open>Formatting verbs of \<^verbatim>\<open>fmt.Sprintf\<close>\<close>

type_synonym byte = "8 word"
type_synonym rune = "32 word"

text \<open>\<^verbatim>\<open>%d\<close>: the decimal digits, most significant first, after a minus sign for a
  negative number.\<close>

definition digitChar :: "nat \<Rightarrow> char" where
  "digitChar d = ''0123456789'' ! d"

fun digits :: "nat \<Rightarrow> string" where
  "digits n = (if n < 10 then [digitChar n] else digits (n div 10) @ [digitChar (n mod 10)])"

declare digits.simps [simp del]

definition fmtD :: "int \<Rightarrow> string" where
  "fmtD i = (if i < 0 then CHR ''-'' # digits (nat (- i)) else digits (nat i))"

text \<open>\<^verbatim>\<open>%c\<close> of a rune: its UTF-8 encoding, one byte below \<open>0x80\<close>; a negative rune,
  a surrogate and a rune above \<open>0x10FFFF\<close> are written as U+FFFD.\<close>

definition fmtC :: "rune \<Rightarrow> string" where
  "fmtC r =
     (let u = sint r in
      if 0 \<le> u \<and> u < 0x80 then [char_of u]
      else if 0x80 \<le> u \<and> u < 0x800 then
        [char_of (0xC0 + u div 64), char_of (0x80 + u mod 64)]
      else if (0x800 \<le> u \<and> u < 0xD800) \<or> (0xDFFF < u \<and> u < 0x10000) then
        [char_of (0xE0 + u div 4096), char_of (0x80 + (u div 64) mod 64),
         char_of (0x80 + u mod 64)]
      else if 0x10000 \<le> u \<and> u \<le> 0x10FFFF then
        [char_of (0xF0 + u div 262144), char_of (0x80 + (u div 4096) mod 64),
         char_of (0x80 + (u div 64) mod 64), char_of (0x80 + u mod 64)]
      else [char_of (0xEF :: int), char_of (0xBF :: int), char_of (0xBD :: int)])"

text \<open>\<^verbatim>\<open>fmt.Sprintf("%d,%d", x, y)\<close>, the key of the legal-move map.\<close>

definition key :: "int \<Rightarrow> int \<Rightarrow> string" where
  "key x y = fmtD x @ '','' @ fmtD y"

text \<open>\<^verbatim>\<open>fmt.Sprintf("%c%d%c%d", 'a'+rune(selX), 8-selY, 'a'+rune(x), 8-y)\<close>, the move
  string of \<^verbatim>\<open>handleMouseClick\<close>. The conversion \<^verbatim>\<open>rune(n)\<close> keeps the low 32 bits.\<close>

definition moveString :: "int \<Rightarrow> int \<Rightarrow> int \<Rightarrow> int \<Rightarrow> string" where
  "moveString selX selY x y =
     fmtC (of_char CHR ''a'' + word_of_int selX) @ fmtD (8 - selY)
     @ fmtC (of_char CHR ''a'' + word_of_int x) @ fmtD (8 - y)"

subsection \<open>\<^verbatim>\<open>parseMove\<close>\<close>

text \<open>\<^verbatim>\<open>move[0] - 'a'\<close> is a subtraction of bytes, which wraps; \<^verbatim>\<open>int(...)\<close> then reads
  the byte as a number from 0 to 255.\<close>

definition parseMove :: "string \<Rightarrow> int \<times> int \<times> int \<times> int \<times> bool" where
  "parseMove move =
     (if length move \<noteq> 4 then (0, 0, 0, 0, False)
      else
        let fromCol = uint ((of_char (move ! 0) :: byte) - of_char CHR ''a'');
            fromRow = 8 - uint ((of_char (move ! 1) :: byte) - of_char CHR ''0'');
            toCol = uint ((of_char (move ! 2) :: byte) - of_char CHR ''a'');
            toRow = 8 - uint ((of_char (move ! 3) :: byte) - of_char CHR ''0'')
        in if fromCol < 0 \<or> fromCol > 7 \<or> fromRow < 0 \<or> fromRow > 7
              \<or> toCol < 0 \<or> toCol > 7 \<or> toRow < 0 \<or> toRow > 7
           then (0, 0, 0, 0, False)
           else (fromRow, fromCol, toRow, toCol, True))"

text \<open>The notation as the specification words it: four characters, a file from
  \<open>a\<close> to \<open>h\<close> and a rank from \<open>1\<close> to \<open>8\<close>, twice; the column is the file minus
  \<open>a\<close> and the row is 8 minus the rank.\<close>

definition isFile :: "char \<Rightarrow> bool" where
  "isFile c \<longleftrightarrow> (of_char CHR ''a'' :: nat) \<le> of_char c \<and> (of_char c :: nat) \<le> of_char CHR ''h''"

definition isRank :: "char \<Rightarrow> bool" where
  "isRank c \<longleftrightarrow> (of_char CHR ''1'' :: nat) \<le> of_char c \<and> (of_char c :: nat) \<le> of_char CHR ''8''"

definition colOfFile :: "char \<Rightarrow> int" where
  "colOfFile c = int (of_char c) - int (of_char CHR ''a'')"

definition rowOfRank :: "char \<Rightarrow> int" where
  "rowOfRank c = 8 - (int (of_char c) - int (of_char CHR ''0''))"

definition wellFormedMove :: "string \<Rightarrow> bool" where
  "wellFormedMove s \<longleftrightarrow>
     length s = 4 \<and> isFile (s ! 0) \<and> isRank (s ! 1) \<and> isFile (s ! 2) \<and> isRank (s ! 3)"

subsection \<open>Pieces, board and game\<close>

record Piece =
  color :: string
  symbol :: rune

text \<open>The table \<^verbatim>\<open>pieces\<close>; reading a Go map at a missing key gives the zero value.\<close>

definition piecesTable :: "(string \<times> rune) list" where
  "piecesTable =
     [(''white_king'', 0x2654), (''white_queen'', 0x2655), (''white_rook'', 0x2656),
      (''white_bishop'', 0x2657), (''white_knight'', 0x2658), (''white_pawn'', 0x2659),
      (''black_king'', 0x265A), (''black_queen'', 0x265B), (''black_rook'', 0x265C),
      (''black_bishop'', 0x265D), (''black_knight'', 0x265E), (''black_pawn'', 0x265F)]"

definition pieces :: "string \<Rightarrow> rune" where
  "pieces k = (case map_of piecesTable k of Some r \<Rightarrow> r | None \<Rightarrow> 0)"

text \<open>The board \<^verbatim>\<open>[8][8]*Piece\<close>, row first. Only the cells with both indexes in
  \<open>0..7\<close> exist in Go: every access of the model is behind a range test, Go's own
  index check where the source has none. A \<^verbatim>\<open>nil\<close> pointer is \<open>None\<close>; no piece is
  ever modified through its pointer, so a cell holds the piece's value.\<close>

type_synonym Board = "int \<Rightarrow> int \<Rightarrow> Piece option"

definition inBoard :: "int \<Rightarrow> int \<Rightarrow> bool" where
  "inBoard y x \<longleftrightarrow> 0 \<le> y \<and> y < 8 \<and> 0 \<le> x \<and> x < 8"

definition setCell :: "Board \<Rightarrow> int \<Rightarrow> int \<Rightarrow> Piece option \<Rightarrow> Board" where
  "setCell b y x v = b(y := (b y)(x := v))"

record Game =
  board :: Board
  currentPlayer :: string
  gameOver :: bool
  cursorX :: int
  cursorY :: int
  selectedX :: int
  selectedY :: int
  message :: string
  legalMoves :: "string \<rightharpoonup> bool"
  currentThemeIndex :: int
  squareWidth :: int
  squareHeight :: int

datatype error = IndexOutOfRange | DivideByZero | EventErr

text \<open>\<^verbatim>\<open>g.legalMoves[k]\<close>: \<^verbatim>\<open>false\<close> at a missing key.\<close>

definition lookupMove :: "(string \<rightharpoonup> bool) \<Rightarrow> string \<Rightarrow> bool" where
  "lookupMove m k = (case m k of Some v \<Rightarrow> v | None \<Rightarrow> False)"

definition mkPiece :: "string \<Rightarrow> string \<Rightarrow> Piece" where
  "mkPiece c k = \<lparr>color = c, symbol = pieces (c @ ''_'' @ k)\<rparr>"

definition backRank :: "string \<Rightarrow> Piece option list" where
  "backRank c = map (\<lambda>k. Some (mkPiece c k))
     [''rook'', ''knight'', ''bishop'', ''queen'', ''king'', ''bishop'', ''knight'', ''rook'']"

definition pawnRank :: "string \<Rightarrow> Piece option list" where
  "pawnRank c = replicate 8 (Some (mkPiece c ''pawn''))"

definition boardOfRows :: "Piece option list list \<Rightarrow> Board" where
  "boardOfRows rows = (\<lambda>y x. if inBoard y x then rows ! nat y ! nat x else None)"

definition NewGame :: Game where
  "NewGame =
     \<lparr>board = boardOfRows
        [backRank ''black'', pawnRank ''black'',
         replicate 8 None, replicate 8 None, replicate 8 None, replicate 8 None,
         pawnRank ''white'', backRank ''white''],
      currentPlayer = ''white'',
      gameOver = False,
      cursorX = 0,
      cursorY = 0,
      selectedX = - 1,
      selectedY = - 1,
      message = ''Welcome! White's turn. Press 'c' to change theme.'',
      legalMoves = Map.empty,
      currentThemeIndex = 0,
      squareWidth = 8,
      squareHeight = 4\<rparr>"

subsection \<open>\<^verbatim>\<open>applyMove\<close>\<close>

text \<open>The two reads \<^verbatim>\<open>g.board[fromY][fromX]\<close> and \<^verbatim>\<open>g.board[toY][toX]\<close> come before
  any write, so an index out of range panics with the state untouched.\<close>

definition applyMove :: "Game \<Rightarrow> int \<Rightarrow> int \<Rightarrow> int \<Rightarrow> int \<Rightarrow> error + Game" where
  "applyMove g fromY fromX toY toX =
     (if \<not> inBoard fromY fromX \<or> \<not> inBoard toY toX then Inl IndexOutOfRange
      else
        let piece = board g fromY fromX;
            g1 = (case board g toY toX of
                    None \<Rightarrow> g
                  | Some targetPiece \<Rightarrow>
                      if symbol targetPiece = pieces ''white_king''
                         \<or> symbol targetPiece = pieces ''black_king''
                      then g\<lparr>gameOver := True,
                             message := ''Game Over! '' @ currentPlayer g @ '' wins.''\<rparr>
                      else g);
            g2 = g1\<lparr>board := setCell (board g1) toY toX piece\<rparr>;
            g3 = g2\<lparr>board := setCell (board g2) fromY fromX None\<rparr>
        in Inr (if currentPlayer g3 = ''white''
                then g3\<lparr>currentPlayer := ''black'', message := ''Black's turn.''\<rparr>
                else g3\<lparr>currentPlayer := ''white'', message := ''White's turn.''\<rparr>))"

subsection \<open>The move generator\<close>

definition addMove :: "Game \<Rightarrow> int \<Rightarrow> int \<Rightarrow> string \<Rightarrow> Game" where
  "addMove g x y c = g\<lparr>legalMoves := (legalMoves g)(key x y \<mapsto> True)\<rparr>"

text \<open>In the generators \<open>y\<close> and \<open>x\<close> are the square of the selected piece, which
  \<^verbatim>\<open>calculateLegalMoves\<close> has indexed before the call; each other index is behind the
  range test of the source. The parameter \<open>c\<close> is the source's \<^verbatim>\<open>color\<close>.\<close>

definition addPawnMoves :: "Game \<Rightarrow> int \<Rightarrow> int \<Rightarrow> string \<Rightarrow> Game" where
  "addPawnMoves g y x c =
     (let dir = (if c = ''black'' then 1 else - 1);
          startRow = (if c = ''black'' then 1 else 6);
          ny = y + dir;
          g1 = (if ny \<ge> 0 \<and> ny < 8 \<and> board g ny x = None
                then (let g' = addMove g x ny c
                      in if y = startRow
                         then (let nny = y + 2 * dir
                               in if nny \<ge> 0 \<and> nny < 8 \<and> board g' nny x = None
                                  then addMove g' x nny c else g')
                         else g')
                else g)
      in foldl (\<lambda>g dx.
                  let nx = x + dx; ny = y + dir
                  in if nx \<ge> 0 \<and> nx < 8 \<and> ny \<ge> 0 \<and> ny < 8
                     then (case board g ny nx of
                             None \<Rightarrow> g
                           | Some target \<Rightarrow> if color target \<noteq> c then addMove g nx ny c else g)
                     else g)
               g1 [- 1, 1])"

text \<open>The inner loop \<^verbatim>\<open>for d := 1; d < 8; d++\<close> of \<^verbatim>\<open>addSlidingMoves\<close>, from the
  counter \<open>d\<close> on; each \<^verbatim>\<open>break\<close> returns.\<close>

function slideRay :: "Game \<Rightarrow> int \<Rightarrow> int \<Rightarrow> string \<Rightarrow> int \<Rightarrow> int \<Rightarrow> int \<Rightarrow> Game" where
  "slideRay g y x c dy dx d =
     (if d < 8
      then (let ny = y + d * dy; nx = x + d * dx
            in if nx < 0 \<or> nx \<ge> 8 \<or> ny < 0 \<or> ny \<ge> 8 then g
               else (case board g ny nx of
                       Some target \<Rightarrow> if color target \<noteq> c then addMove g nx ny c else g
                     | None \<Rightarrow> slideRay (addMove g nx ny c) y x c dy dx (d + 1)))
      else g)"
  by pat_completeness auto
termination
  by (relation "measure (\<lambda>(g, y, x, c, dy, dx, d). nat (8 - d))") auto

declare slideRay.simps [simp del]

text \<open>The outer loop \<^verbatim>\<open>for i := range yDirs\<close>; the three calls pass two slices of the
  same length.\<close>

definition addSlidingMoves ::
  "Game \<Rightarrow> int \<Rightarrow> int \<Rightarrow> string \<Rightarrow> int list \<Rightarrow> int list \<Rightarrow> Game" where
  "addSlidingMoves g y x c yDirs xDirs =
     foldl (\<lambda>g i. slideRay g y x c (yDirs ! i) (xDirs ! i) 1) g [0..<length yDirs]"

definition addKnightMoves :: "Game \<Rightarrow> int \<Rightarrow> int \<Rightarrow> string \<Rightarrow> Game" where
  "addKnightMoves g y x c =
     (let yMoves = [- 2, - 2, - 1, - 1, 1, 1, 2, 2];
          xMoves = [- 1, 1, - 2, 2, - 2, 2, - 1, 1]
      in foldl (\<lambda>g i.
                  let ny = y + yMoves ! i; nx = x + xMoves ! i
                  in if nx \<ge> 0 \<and> nx < 8 \<and> ny \<ge> 0 \<and> ny < 8
                     then (case board g ny nx of
                             None \<Rightarrow> addMove g nx ny c
                           | Some target \<Rightarrow> if color target \<noteq> c then addMove g nx ny c else g)
                     else g)
               g [0..<length yMoves])"

text \<open>The two counting loops of \<^verbatim>\<open>addKingMoves\<close> run over \<open>-1, 0, 1\<close>.\<close>

definition addKingMoves :: "Game \<Rightarrow> int \<Rightarrow> int \<Rightarrow> string \<Rightarrow> Game" where
  "addKingMoves g y x c =
     foldl (\<lambda>g dy.
       foldl (\<lambda>g dx.
                if dy = 0 \<and> dx = 0 then g
                else (let ny = y + dy; nx = x + dx
                      in if nx \<ge> 0 \<and> nx < 8 \<and> ny \<ge> 0 \<and> ny < 8
                         then (case board g ny nx of
                                 None \<Rightarrow> addMove g nx ny c
                               | Some target \<Rightarrow>
                                   if color target \<noteq> c then addMove g nx ny c else g)
                         else g))
             g [- 1, 0, 1])
       g [- 1, 0, 1]"

text \<open>\<^verbatim>\<open>calculateLegalMoves\<close>: the map is replaced first, then \<^verbatim>\<open>g.board[y][x]\<close> is
  read, which panics out of range. The cases of the \<^verbatim>\<open>switch\<close> are tried in order.\<close>

definition calculateLegalMoves :: "Game \<Rightarrow> int \<Rightarrow> int \<Rightarrow> error + Game" where
  "calculateLegalMoves g0 y x =
     (let g = g0\<lparr>legalMoves := Map.empty\<rparr>
      in if \<not> inBoard y x then Inl IndexOutOfRange
         else (case board g y x of
                 None \<Rightarrow> Inr g
               | Some piece \<Rightarrow>
                   Inr (if symbol piece = pieces ''white_pawn'' then addPawnMoves g y x ''white''
                        else if symbol piece = pieces ''black_pawn''
                          then addPawnMoves g y x ''black''
                        else if symbol piece = pieces ''white_rook''
                                \<or> symbol piece = pieces ''black_rook''
                          then addSlidingMoves g y x (color piece) [- 1, 1, 0, 0] [0, 0, - 1, 1]
                        else if symbol piece = pieces ''white_bishop''
                                \<or> symbol piece = pieces ''black_bishop''
                          then addSlidingMoves g y x (color piece)
                                 [- 1, - 1, 1, 1] [- 1, 1, - 1, 1]
                        else if symbol piece = pieces ''white_queen''
                                \<or> symbol piece = pieces ''black_queen''
                          then addSlidingMoves g y x (color piece)
                                 [- 1, 1, 0, 0, - 1, - 1, 1, 1] [0, 0, - 1, 1, - 1, 1, - 1, 1]
                        else if symbol piece = pieces ''white_knight''
                                \<or> symbol piece = pieces ''black_knight''
                          then addKnightMoves g y x (color piece)
                        else if symbol piece = pieces ''white_king''
                                \<or> symbol piece = pieces ''black_king''
                          then addKingMoves g y x (color piece)
                        else g)))"

subsection \<open>\<^verbatim>\<open>handleMouseClick\<close>\<close>

text \<open>The result is the new state with the returned string. The move string is built
  before \<^verbatim>\<open>applyMove\<close> is called, as in the source; when \<^verbatim>\<open>applyMove\<close> panics it is
  lost with the rest.\<close>

definition handleMouseClick :: "Game \<Rightarrow> string \<Rightarrow> error + (Game \<times> string)" where
  "handleMouseClick g playerColor =
     (let x = cursorX g; y = cursorY g
      in if currentPlayer g \<noteq> playerColor then Inr (g\<lparr>message := ''Not your turn!''\<rparr>, [])
         else if selectedX g \<noteq> - 1
         then (if lookupMove (legalMoves g) (key x y)
               then (let moveStr = moveString (selectedX g) (selectedY g) x y
                     in case applyMove g (selectedY g) (selectedX g) y x of
                          Inl e \<Rightarrow> Inl e
                        | Inr g1 \<Rightarrow>
                            Inr (g1\<lparr>selectedX := - 1, selectedY := - 1,
                                     legalMoves := Map.empty\<rparr>, moveStr))
               else Inr (g\<lparr>selectedX := - 1, selectedY := - 1, legalMoves := Map.empty,
                           message := ''Move cancelled.''\<rparr>, []))
         else if \<not> inBoard y x then Inl IndexOutOfRange
         else (case board g y x of
                 None \<Rightarrow> Inr (g\<lparr>message := ''Select one of your own pieces.''\<rparr>, [])
               | Some piece \<Rightarrow>
                   if color piece = currentPlayer g
                   then (case calculateLegalMoves
                                (g\<lparr>selectedX := x, selectedY := y,
                                    message := ''Piece selected. Click a destination square.''\<rparr>)
                                y x of
                           Inl e \<Rightarrow> Inl e
                         | Inr g2 \<Rightarrow> Inr (g2, []))
                   else Inr (g\<lparr>message := ''Select one of your own pieces.''\<rparr>, [])))"

subsection \<open>The two loops of \<^verbatim>\<open>play\<close>\<close>

text \<open>One turn of the reader goroutine. The input is what \<^verbatim>\<open>ReadString\<close> gave: an
  error, or a line, which is taken here as \<^verbatim>\<open>strings.TrimSpace\<close> returns it. The flag
  of \<^verbatim>\<open>parseMove\<close> is dropped and the coordinates go to \<^verbatim>\<open>applyMove\<close>. The second
  component tells whether the goroutine goes on.\<close>

datatype ReadResult = ReadErr | Line string

definition readerTurn :: "Game \<Rightarrow> ReadResult \<Rightarrow> error + (Game \<times> bool)" where
  "readerTurn g r =
     (case r of
        ReadErr \<Rightarrow> Inr (g\<lparr>message := ''Opponent disconnected.'', gameOver := True\<rparr>, False)
      | Line moveStr \<Rightarrow>
          (case parseMove moveStr of
             (fromRow, fromCol, toRow, toCol, _) \<Rightarrow>
               (case applyMove g fromRow fromCol toRow toCol of
                  Inl e \<Rightarrow> Inl e
                | Inr g' \<Rightarrow> Inr (g', True))))"

text \<open>The events of \<^verbatim>\<open>termbox.PollEvent\<close>, with the fields that \<^verbatim>\<open>play\<close> reads.\<close>

datatype Key = KeyEsc | MouseLeft | KeyOther

datatype Event =
    EventKey Key rune
  | EventMouse int int Key
  | EventError
  | EventOther

text \<open>Go's division of \<^verbatim>\<open>int\<close>s truncates towards zero and panics on a zero divisor;
  the most negative \<^verbatim>\<open>int\<close> divided by \<open>-1\<close> wraps to itself. The sum of the theme
  index wraps in the same way.\<close>

definition goDiv :: "int \<Rightarrow> int \<Rightarrow> error + int" where
  "goDiv a b = (if b = 0 then Inl DivideByZero else Inr (signed_take_bit 63 (a sdiv b)))"

definition clamp07 :: "int \<Rightarrow> int" where
  "clamp07 v = (let v1 = (if v < 0 then 0 else v) in if v1 > 7 then 7 else v1)"

text \<open>The body of \<^verbatim>\<open>for !g.gameOver\<close> on one event. \<open>Continue g out\<close> goes back to the
  loop test, after writing the lines \<open>out\<close> to the connection; \<open>Return g\<close> leaves
  \<^verbatim>\<open>play\<close>.\<close>

datatype Outcome = Continue Game "string list" | Return Game

definition loopBody :: "string \<Rightarrow> Game \<Rightarrow> Event \<Rightarrow> error + Outcome" where
  "loopBody player g ev =
     (case ev of
        EventKey k ch \<Rightarrow>
          if k = KeyEsc then Inr (Return (g\<lparr>gameOver := True\<rparr>))
          else if ch = of_char CHR ''c'' \<or> ch = of_char CHR ''C''
          then Inr (Continue
                 (g\<lparr>currentThemeIndex := signed_take_bit 63 (currentThemeIndex g + 1) smod 5,
                     message := ''Press 'c' to change theme.''\<rparr>) [])
          else Inr (Continue g [])
      | EventMouse mouseX mouseY k \<Rightarrow>
          (case goDiv mouseX (squareWidth g) of
             Inl e \<Rightarrow> Inl e
           | Inr cx \<Rightarrow>
               (case goDiv mouseY (squareHeight g) of
                  Inl e \<Rightarrow> Inl e
                | Inr cy \<Rightarrow>
                    let g1 = g\<lparr>cursorX := clamp07 cx, cursorY := clamp07 cy\<rparr>
                    in if k = MouseLeft
                       then (case handleMouseClick g1 player of
                               Inl e \<Rightarrow> Inl e
                             | Inr (g2, moveStr) \<Rightarrow>
                                 Inr (Continue g2
                                        (if moveStr \<noteq> [] then [moveStr @ [CHR 0x0A]] else [])))
                       else Inr (Continue g1 [])))
      | EventError \<Rightarrow> Inl EventErr
      | EventOther \<Rightarrow> Inr (Continue g []))"

text \<open>The process: the main loop is at its test, inside \<^verbatim>\<open>PollEvent\<close>, or over (when
  \<^verbatim>\<open>play\<close> returns, \<^verbatim>\<open>main\<close> returns and the process ends, and so does a panic);
  the reader goroutine runs until a read fails. One step is the loop test, the delivery
  of one event to the waiting loop, or one turn of the reader; \<open>None\<close> when the step is
  not possible in the state. A step is taken as a whole: the source locks \<^verbatim>\<open>applyMove\<close>
  and \<^verbatim>\<open>drawBoard\<close> only, and the interleavings of the reader with the unlocked parts
  of \<^verbatim>\<open>handleMouseClick\<close> are not among the runs of this model.\<close>

datatype MainPc = AtTest | InPoll | Over

record Process =
  game :: Game
  mainPc :: MainPc
  readerRuns :: bool
  wire :: "string list"

datatype Step = Test | Deliver Event | Read ReadResult

definition step :: "string \<Rightarrow> Process \<Rightarrow> Step \<Rightarrow> Process option" where
  "step player p a =
     (case a of
        Test \<Rightarrow>
          if mainPc p = AtTest
          then Some (if gameOver (game p) then p\<lparr>mainPc := Over\<rparr> else p\<lparr>mainPc := InPoll\<rparr>)
          else None
      | Deliver ev \<Rightarrow>
          if mainPc p = InPoll
          then (case loopBody player (game p) ev of
                  Inl e \<Rightarrow> Some (p\<lparr>mainPc := Over\<rparr>)
                | Inr (Continue g out) \<Rightarrow>
                    Some (p\<lparr>game := g, mainPc := AtTest, wire := wire p @ out\<rparr>)
                | Inr (Return g) \<Rightarrow> Some (p\<lparr>game := g, mainPc := Over\<rparr>))
          else None
      | Read r \<Rightarrow>
          if mainPc p \<noteq> Over \<and> readerRuns p
          then (case readerTurn (game p) r of
                  Inl e \<Rightarrow> Some (p\<lparr>mainPc := Over\<rparr>)
                | Inr (g, goesOn) \<Rightarrow> Some (p\<lparr>game := g, readerRuns := goesOn\<rparr>))
          else None)"

fun run :: "string \<Rightarrow> Process \<Rightarrow> Step list \<Rightarrow> Process option" where
  "run player p [] = Some p"
| "run player p (a # as) =
     (case step player p a of None \<Rightarrow> None | Some p' \<Rightarrow> run player p' as)"

definition start :: Process where
  "start = \<lparr>game = NewGame, mainPc = AtTest, readerRuns = True, wire = []\<rparr>"

subsection \<open>The generator as the specification words it\<close>

text \<open>A destination is a pair (row, column). A square is \<open>opposing\<close> for the colour
  \<open>c\<close> when it holds a piece of another colour, and \<open>emptyOrOpposing\<close> when it is
  empty or opposing: it does not hold a piece of the colour \<open>c\<close>.\<close>

definition emptyOrOpposing :: "Board \<Rightarrow> string \<Rightarrow> int \<Rightarrow> int \<Rightarrow> bool" where
  "emptyOrOpposing b c ny nx = (case b ny nx of None \<Rightarrow> True | Some t \<Rightarrow> color t \<noteq> c)"

definition opposing :: "Board \<Rightarrow> string \<Rightarrow> int \<Rightarrow> int \<Rightarrow> bool" where
  "opposing b c ny nx = (case b ny nx of None \<Rightarrow> False | Some t \<Rightarrow> color t \<noteq> c)"

text \<open>The ray from \<open>(y, x)\<close> in the direction \<open>(dy, dx)\<close>, from the distance \<open>d0\<close> on:
  a square of the board at a distance \<open>d\<close> from \<open>d0\<close> to 7 belongs to it when every
  square of the ray at a distance from \<open>d0\<close> to below \<open>d\<close> is on the board and empty,
  and the square itself is empty or opposing. These are the empty squares before the
  first occupied one, and the first occupied one when it is opposing. With \<open>d0 = 1\<close>
  it is the whole ray.\<close>

definition rayFrom ::
  "Board \<Rightarrow> string \<Rightarrow> int \<Rightarrow> int \<Rightarrow> int \<Rightarrow> int \<Rightarrow> int \<Rightarrow> int \<times> int \<Rightarrow> bool" where
  "rayFrom b c y x dy dx d0 = (\<lambda>(ny, nx).
     \<exists>d\<in>{d0..7}. ny = y + d * dy \<and> nx = x + d * dx \<and> inBoard ny nx
       \<and> (\<forall>e\<in>{d0..<d}. inBoard (y + e * dy) (x + e * dx) \<and> b (y + e * dy) (x + e * dx) = None)
       \<and> emptyOrOpposing b c ny nx)"

definition isRook :: "Piece \<Rightarrow> bool" where
  "isRook p \<longleftrightarrow> symbol p = pieces ''white_rook'' \<or> symbol p = pieces ''black_rook''"

definition isBishop :: "Piece \<Rightarrow> bool" where
  "isBishop p \<longleftrightarrow> symbol p = pieces ''white_bishop'' \<or> symbol p = pieces ''black_bishop''"

definition isQueen :: "Piece \<Rightarrow> bool" where
  "isQueen p \<longleftrightarrow> symbol p = pieces ''white_queen'' \<or> symbol p = pieces ''black_queen''"

definition orthogonal :: "(int \<times> int) list" where
  "orthogonal = [(- 1, 0), (1, 0), (0, - 1), (0, 1)]"

definition diagonal :: "(int \<times> int) list" where
  "diagonal = [(- 1, - 1), (- 1, 1), (1, - 1), (1, 1)]"

text \<open>Rook: the four orthogonal rays; bishop: the four diagonal rays; queen: all eight.\<close>

definition raysOf :: "Piece \<Rightarrow> (int \<times> int) list" where
  "raysOf p = (if isRook p then orthogonal else if isBishop p then diagonal
               else if isQueen p then orthogonal @ diagonal else [])"

definition slidingSpec :: "Board \<Rightarrow> Piece \<Rightarrow> int \<Rightarrow> int \<Rightarrow> int \<times> int \<Rightarrow> bool" where
  "slidingSpec b p y x dest \<longleftrightarrow>
     (\<exists>dir\<in>set (raysOf p). rayFrom b (color p) y x (fst dir) (snd dir) 1 dest)"

text \<open>The pawn of colour \<open>c\<close> on \<open>(y, x)\<close>: forward is towards row 0 for white and
  towards row 7 for black; the starting rank is row 6 for white and row 1 for black.
  One step forward onto an empty square; two steps forward from the starting rank when
  both squares are empty; one step forward to either side onto an opposing piece.\<close>

definition pawnSpec :: "Board \<Rightarrow> string \<Rightarrow> int \<Rightarrow> int \<Rightarrow> int \<times> int \<Rightarrow> bool" where
  "pawnSpec b c y x = (\<lambda>(ny, nx).
     let fwd = (if c = ''white'' then - 1 else 1); start = (if c = ''white'' then 6 else 1)
     in inBoard ny nx
        \<and> ((ny = y + fwd \<and> nx = x \<and> b ny nx = None)
           \<or> (y = start \<and> ny = y + 2 * fwd \<and> nx = x \<and> b (y + fwd) x = None \<and> b ny nx = None)
           \<or> (ny = y + fwd \<and> (nx = x - 1 \<or> nx = x + 1) \<and> opposing b c ny nx)))"

subsection \<open>Sets of destinations, for the proofs\<close>

text \<open>\<open>addDests g S\<close> is \<open>g\<close> after \<^verbatim>\<open>addMove\<close> on every destination of \<open>S\<close>.\<close>

definition addDests :: "Game \<Rightarrow> (int \<times> int) set \<Rightarrow> Game" where
  "addDests g S =
     g\<lparr>legalMoves := (\<lambda>k. if \<exists>(ny, nx)\<in>S. k = key nx ny then Some True else legalMoves g k)\<rparr>"

definition pawnForward :: "Board \<Rightarrow> int \<Rightarrow> int \<Rightarrow> int \<Rightarrow> int \<Rightarrow> (int \<times> int) set" where
  "pawnForward b y x dir startRow =
     (if y + dir \<ge> 0 \<and> y + dir < 8 \<and> b (y + dir) x = None
      then insert (y + dir, x)
             (if y = startRow \<and> y + 2 * dir \<ge> 0 \<and> y + 2 * dir < 8 \<and> b (y + 2 * dir) x = None
              then {(y + 2 * dir, x)} else {})
      else {})"

definition pawnCapture ::
  "Board \<Rightarrow> string \<Rightarrow> int \<Rightarrow> int \<Rightarrow> int \<Rightarrow> int \<Rightarrow> (int \<times> int) set" where
  "pawnCapture b c y x dir dx =
     (if x + dx \<ge> 0 \<and> x + dx < 8 \<and> y + dir \<ge> 0 \<and> y + dir < 8 \<and> opposing b c (y + dir) (x + dx)
      then {(y + dir, x + dx)} else {})"

definition hop :: "Board \<Rightarrow> string \<Rightarrow> int \<Rightarrow> int \<Rightarrow> (int \<times> int) set" where
  "hop b c ny nx = (if inBoard ny nx \<and> emptyOrOpposing b c ny nx then {(ny, nx)} else {})"

definition okDest :: "Board \<Rightarrow> string \<Rightarrow> int \<times> int \<Rightarrow> bool" where
  "okDest b c = (\<lambda>(ny, nx). inBoard ny nx \<and> emptyOrOpposing b c ny nx)"

section \<open>Results\<close>

subsection \<open>Evaluation\<close>

lemma pieces_simps [simp]:
  "pieces ''white_king'' = 0x2654" "pieces ''white_queen'' = 0x2655"
  "pieces ''white_rook'' = 0x2656" "pieces ''white_bishop'' = 0x2657"
  "pieces ''white_knight'' = 0x2658" "pieces ''white_pawn'' = 0x2659"
  "pieces ''black_king'' = 0x265A" "pieces ''black_queen'' = 0x265B"
  "pieces ''black_rook'' = 0x265C" "pieces ''black_bishop'' = 0x265D"
  "pieces ''black_knight'' = 0x265E" "pieces ''black_pawn'' = 0x265F"
  by (simp_all add: pieces_def piecesTable_def)

lemmas position_defs =
  NewGame_def boardOfRows_def inBoard_def pawnRank_def backRank_def mkPiece_def setCell_def

lemmas format_defs =
  key_def fmtD_def digits.simps digitChar_def moveString_def fmtC_def char_of_def

lemmas play_defs =
  readerTurn_def parseMove_def applyMove_def step_def start_def loopBody_def goDiv_def
  clamp07_def handleMouseClick_def calculateLegalMoves_def addPawnMoves_def addMove_def
  lookupMove_def Let_def signed_divide_int_def signed_take_bit_int_eq_self

subsection \<open>Bytes of the notation\<close>

lemma wrap256:
  fixes n k :: int
  assumes "0 \<le> n" "n < 256" "0 \<le> k" "k < 256"
  shows "(n - k) mod 256 = (if k \<le> n then n - k else n - k + 256)"
proof (cases "k \<le> n")
  case True
  then show ?thesis using assms by (simp add: mod_pos_pos_trivial)
next
  case False
  have "(n - k) mod 256 = (n - k + 256) mod 256" by simp
  also have "\<dots> = n - k + 256" using False assms by (intro mod_pos_pos_trivial) simp_all
  finally show ?thesis using False by simp
qed

lemma byte_of_char: "(of_char c :: byte) = word_of_int (int (of_char c))"
  by (metis of_int_of_nat_eq of_nat_of_char)

lemma byte_diff_of_char:
  "(of_char c :: byte) - of_char d = word_of_int (int (of_char c) - int (of_char d))"
  by (subst byte_of_char [of c], subst byte_of_char [of d]) (rule of_int_diff [symmetric])

lemma uint_byte_of_int: "uint (word_of_int k :: byte) = k mod 256"
  by (simp add: uint_word_of_int take_bit_eq_mod)

lemma uint_byte_diff:
  "uint ((of_char c :: byte) - of_char d) = (int (of_char c) - int (of_char d)) mod 256"
  by (simp only: byte_diff_of_char uint_byte_of_int)

lemma byte_sub_uint:
  "uint ((of_char c :: byte) - of_char d) =
     (if int (of_char d) \<le> int (of_char c) then int (of_char c) - int (of_char d)
      else int (of_char c) - int (of_char d) + 256)"
  unfolding uint_byte_diff by (rule wrap256) simp_all

lemma file_decode:
  "uint ((of_char c :: byte) - of_char CHR ''a'') \<le> 7 \<longleftrightarrow> isFile c"
  "isFile c \<Longrightarrow> uint ((of_char c :: byte) - of_char CHR ''a'') = colOfFile c"
  unfolding byte_sub_uint isFile_def colOfFile_def
  using of_nat_less_iff [of "of_char c" 256, where ?'a = int] by auto

lemma rank_decode:
  "1 \<le> uint ((of_char c :: byte) - of_char CHR ''0'')
     \<and> uint ((of_char c :: byte) - of_char CHR ''0'') \<le> 8 \<longleftrightarrow> isRank c"
  "isRank c \<Longrightarrow> 8 - uint ((of_char c :: byte) - of_char CHR ''0'') = rowOfRank c"
  unfolding byte_sub_uint isRank_def rowOfRank_def
  using of_nat_less_iff [of "of_char c" 256, where ?'a = int] by auto

lemma parseMove_spec:
  "parseMove s =
     (if wellFormedMove s
      then (rowOfRank (s ! 1), colOfFile (s ! 0), rowOfRank (s ! 3), colOfFile (s ! 2), True)
      else (0, 0, 0, 0, False))"
proof (cases "length s = 4")
  case False
  then show ?thesis by (simp add: parseMove_def wellFormedMove_def)
next
  case True
  have r: "(8 - uint ((of_char c :: byte) - of_char CHR ''0'') < 0
             \<or> 8 - uint ((of_char c :: byte) - of_char CHR ''0'') > 7) \<longleftrightarrow> \<not> isRank c" for c
    using rank_decode(1) [of c] by (auto simp del: of_char_Char)
  have f: "(uint ((of_char c :: byte) - of_char CHR ''a'') < 0
             \<or> uint ((of_char c :: byte) - of_char CHR ''a'') > 7) \<longleftrightarrow> \<not> isFile c" for c
    using file_decode(1) [of c] by (auto simp del: of_char_Char)
  show ?thesis
  proof (cases "wellFormedMove s")
    case wf: True
    then have "isFile (s ! 0)" "isRank (s ! 1)" "isFile (s ! 2)" "isRank (s ! 3)"
      by (simp_all add: wellFormedMove_def)
    then show ?thesis
      using wf True f [of "s ! 0"] r [of "s ! 1"] f [of "s ! 2"] r [of "s ! 3"]
      by (simp add: parseMove_def Let_def file_decode(2) rank_decode(2) del: of_char_Char)
  next
    case nwf: False
    then have "\<not> isFile (s ! 0) \<or> \<not> isRank (s ! 1) \<or> \<not> isFile (s ! 2) \<or> \<not> isRank (s ! 3)"
      using True by (simp add: wellFormedMove_def)
    then show ?thesis
      using nwf True f [of "s ! 0"] r [of "s ! 1"] f [of "s ! 2"] r [of "s ! 3"]
      by (auto simp add: parseMove_def Let_def simp del: of_char_Char)
  qed
qed

lemma inBoard_decode: "isFile f \<Longrightarrow> isRank r \<Longrightarrow> inBoard (rowOfRank r) (colOfFile f)"
  by (auto simp add: isFile_def isRank_def inBoard_def rowOfRank_def colOfFile_def)

lemma coord_cases:
  fixes x :: int
  assumes "0 \<le> x" "x < 8"
  obtains "x = 0" | "x = 1" | "x = 2" | "x = 3" | "x = 4" | "x = 5" | "x = 6" | "x = 7"
  using assms by arith

lemma fmtC_file:
  assumes "0 \<le> x" "x < 8"
  shows "\<exists>c. fmtC (of_char CHR ''a'' + word_of_int x) = [c]
              \<and> uint ((of_char c :: byte) - of_char CHR ''a'') = x"
  using assms by (cases x rule: coord_cases) (simp_all add: fmtC_def char_of_def)

lemma fmtD_rank:
  assumes "0 \<le> y" "y < 8"
  shows "\<exists>c. fmtD (8 - y) = [c] \<and> uint ((of_char c :: byte) - of_char CHR ''0'') = 8 - y"
  using assms
  by (cases y rule: coord_cases) (simp_all add: fmtD_def digits.simps digitChar_def)

lemma parseMove_four:
  assumes "0 \<le> fr" "fr < 8" "0 \<le> fc" "fc < 8" "0 \<le> tr" "tr < 8" "0 \<le> tc" "tc < 8"
    and a: "uint ((of_char a :: byte) - of_char CHR ''a'') = fc"
    and b: "uint ((of_char b :: byte) - of_char CHR ''0'') = 8 - fr"
    and c: "uint ((of_char c :: byte) - of_char CHR ''a'') = tc"
    and d: "uint ((of_char d :: byte) - of_char CHR ''0'') = 8 - tr"
  shows "parseMove [a, b, c, d] = (fr, fc, tr, tc, True)"
  using assms(1-8)
  by (simp add: parseMove_def Let_def a b c d del: of_char_Char)

subsection \<open>\<^verbatim>\<open>applyMove\<close>\<close>

lemma applyMove_Inr:
  "inBoard fromY fromX \<Longrightarrow> inBoard toY toX \<Longrightarrow> \<exists>g'. applyMove g fromY fromX toY toX = Inr g'"
  by (simp add: applyMove_def Let_def)

text \<open>What \<^verbatim>\<open>applyMove\<close> leaves in the flag and in the message: the flag is set by a
  king on the destination and never cleared; the message is always the turn line,
  whatever was on the destination.\<close>

lemma applyMove_gameOver_message:
  assumes "inBoard fromY fromX" "inBoard toY toX"
  shows "\<exists>g'. applyMove g fromY fromX toY toX = Inr g'
           \<and> (gameOver g' \<longleftrightarrow> gameOver g
                \<or> (\<exists>t. board g toY toX = Some t
                       \<and> (symbol t = pieces ''white_king'' \<or> symbol t = pieces ''black_king'')))
           \<and> message g' = (if currentPlayer g = ''white'' then ''Black's turn.''
                           else ''White's turn.'')"
  using assms by (auto simp add: applyMove_def Let_def split: option.splits)

text \<open>
  \<^bold>\<open>C1.\<close> A move onto a king must set \<open>gameOver\<close> and record the mover as the winner
  in the message. On the first line \<^verbatim>\<open>d1e8\<close> of a new game the reader calls
  \<^verbatim>\<open>applyMove(7, 3, 0, 4)\<close>; the black king is on the destination and the flag is set,
  but the message left behind is the turn line, not \<^verbatim>\<open>Game Over! white wins.\<close>: the
  assignment after the board update overwrites it.
\<close>

theorem applyMove_king_message_overwritten:
  "\<exists>g'. board NewGame 0 4 = Some (mkPiece ''black'' ''king'')
        \<and> currentPlayer NewGame = ''white''
        \<and> readerTurn NewGame (Line ''d1e8'') = Inr (g', True)
        \<and> applyMove NewGame 7 3 0 4 = Inr g'
        \<and> gameOver g'
        \<and> message g' = ''Black's turn.''
        \<and> message g' \<noteq> ''Game Over! white wins.''"
  by (simp add: readerTurn_def parseMove_def applyMove_def position_defs Let_def)

theorem applyMove_king_message_overwritten_witness:
  "\<exists>g'. applyMove NewGame 7 3 0 4 = Inr g' \<and> gameOver g' \<and> message g' = ''Black's turn.''"
  using applyMove_king_message_overwritten by blast

subsection \<open>The notation\<close>

text \<open>
  \<^bold>\<open>C3.\<close> \<^verbatim>\<open>parseMove\<close> answers \<open>True\<close> with the decoded coordinates, each in
  \<open>0..7\<close>, exactly on the strings of four characters file, rank, file, rank; on every
  other string it answers \<open>(0, 0, 0, 0, False)\<close>, and the reader then calls
  \<^verbatim>\<open>applyMove(0, 0, 0, 0)\<close>, which does not fail, and goes on.
\<close>

theorem parseMove_wellFormed_or_zero:
  "parseMove s =
     (if wellFormedMove s
      then (rowOfRank (s ! 1), colOfFile (s ! 0), rowOfRank (s ! 3), colOfFile (s ! 2), True)
      else (0, 0, 0, 0, False))
   \<and> (wellFormedMove s \<longrightarrow>
        inBoard (rowOfRank (s ! 1)) (colOfFile (s ! 0))
        \<and> inBoard (rowOfRank (s ! 3)) (colOfFile (s ! 2)))
   \<and> (\<not> wellFormedMove s \<longrightarrow>
        (\<exists>g'. applyMove g 0 0 0 0 = Inr g' \<and> readerTurn g (Line s) = Inr (g', True)))"
proof (intro conjI impI)
  show "parseMove s =
     (if wellFormedMove s
      then (rowOfRank (s ! 1), colOfFile (s ! 0), rowOfRank (s ! 3), colOfFile (s ! 2), True)
      else (0, 0, 0, 0, False))"
    by (rule parseMove_spec)
next
  assume "wellFormedMove s"
  then show "inBoard (rowOfRank (s ! 1)) (colOfFile (s ! 0))"
    "inBoard (rowOfRank (s ! 3)) (colOfFile (s ! 2))"
    by (simp_all add: wellFormedMove_def inBoard_decode)
next
  assume n: "\<not> wellFormedMove s"
  obtain g' where g': "applyMove g 0 0 0 0 = Inr g'"
    using applyMove_Inr [of 0 0 0 0 g] by (auto simp add: inBoard_def)
  have "parseMove s = (0, 0, 0, 0, False)" using n by (simp add: parseMove_spec)
  then have "readerTurn g (Line s) = Inr (g', True)"
    by (simp add: readerTurn_def g')
  then show "\<exists>g'. applyMove g 0 0 0 0 = Inr g' \<and> readerTurn g (Line s) = Inr (g', True)"
    using g' by simp
qed

theorem parseMove_wellFormed_or_zero_witness:
  "parseMove ''e9e4'' = (0, 0, 0, 0, False)
   \<and> (\<exists>g'. applyMove NewGame 0 0 0 0 = Inr g'
          \<and> readerTurn NewGame (Line ''e9e4'') = Inr (g', True))
   \<and> parseMove ''e7e5'' = (1, 4, 3, 4, True)"
  using parseMove_wellFormed_or_zero [of "''e9e4''" NewGame]
    parseMove_wellFormed_or_zero [of "''e7e5''" NewGame]
  by (simp add: wellFormedMove_def isFile_def isRank_def rowOfRank_def colOfFile_def)

text \<open>
  \<^bold>\<open>C7.\<close> The move from row 6, column 4 to row 4, column 4 is written \<^verbatim>\<open>e2e4\<close> by
  the \<^verbatim>\<open>Sprintf\<close> of \<^verbatim>\<open>handleMouseClick\<close>, whose arguments are the selected column
  and row and then the cursor's, and \<^verbatim>\<open>parseMove\<close> reads \<^verbatim>\<open>e2e4\<close> back as
  \<open>(6, 4, 4, 4)\<close> with \<open>True\<close>. The click itself, on a new game with the pawn of e2
  selected and the cursor on e4, returns that string.
\<close>

theorem e2e4_round_trip:
  "moveString 4 6 4 4 = ''e2e4''
   \<and> parseMove ''e2e4'' = (6, 4, 4, 4, True)
   \<and> (\<exists>g1 g2. handleMouseClick (NewGame\<lparr>cursorX := 4, cursorY := 6\<rparr>) ''white'' = Inr (g1, [])
         \<and> handleMouseClick (g1\<lparr>cursorX := 4, cursorY := 4\<rparr>) ''white'' = Inr (g2, ''e2e4''))"
  by (simp add: position_defs format_defs play_defs)

theorem e2e4_round_trip_witness:
  "parseMove (moveString 4 6 4 4) = (6, 4, 4, 4, True)"
  using e2e4_round_trip by simp

text \<open>
  \<^bold>\<open>C10.\<close> For all four coordinates in \<open>0..7\<close>, \<^verbatim>\<open>parseMove\<close> reads the string that
  \<^verbatim>\<open>handleMouseClick\<close> writes for the move back as the same rows and columns, with
  \<open>True\<close>.
\<close>

theorem parseMove_moveString:
  assumes "0 \<le> fromRow" "fromRow < 8" "0 \<le> fromCol" "fromCol < 8"
    "0 \<le> toRow" "toRow < 8" "0 \<le> toCol" "toCol < 8"
  shows "parseMove (moveString fromCol fromRow toCol toRow) = (fromRow, fromCol, toRow, toCol, True)"
proof -
  obtain a where a: "fmtC (of_char CHR ''a'' + word_of_int fromCol) = [a]"
    "uint ((of_char a :: byte) - of_char CHR ''a'') = fromCol"
    using fmtC_file [of fromCol] assms by blast
  obtain b where b: "fmtD (8 - fromRow) = [b]"
    "uint ((of_char b :: byte) - of_char CHR ''0'') = 8 - fromRow"
    using fmtD_rank [of fromRow] assms by blast
  obtain c where c: "fmtC (of_char CHR ''a'' + word_of_int toCol) = [c]"
    "uint ((of_char c :: byte) - of_char CHR ''a'') = toCol"
    using fmtC_file [of toCol] assms by blast
  obtain d where d: "fmtD (8 - toRow) = [d]"
    "uint ((of_char d :: byte) - of_char CHR ''0'') = 8 - toRow"
    using fmtD_rank [of toRow] assms by blast
  have "moveString fromCol fromRow toCol toRow = [a, b, c, d]"
    unfolding moveString_def a(1) b(1) c(1) d(1) by simp
  then show ?thesis using parseMove_four [OF assms a(2) b(2) c(2) d(2)] by simp
qed

theorem parseMove_moveString_witness:
  "moveString 0 7 7 0 = ''a1h8'' \<and> parseMove (moveString 0 7 7 0) = (7, 0, 0, 7, True)"
  using parseMove_moveString [of 7 0 0 7] by (simp add: format_defs)

subsection \<open>Turns\<close>

text \<open>
  \<^bold>\<open>C8.\<close> When \<open>currentPlayer\<close> is not the colour of the player who clicks,
  \<^verbatim>\<open>handleMouseClick\<close> returns the empty string and changes the message only: the
  board, the player to move, the flag, the selection and the legal moves stay.
\<close>

theorem handleMouseClick_not_your_turn:
  assumes "currentPlayer g \<noteq> playerColor"
  shows "\<exists>g'. handleMouseClick g playerColor = Inr (g', [])
           \<and> g' = g\<lparr>message := ''Not your turn!''\<rparr>
           \<and> board g' = board g \<and> currentPlayer g' = currentPlayer g
           \<and> gameOver g' = gameOver g \<and> selectedX g' = selectedX g
           \<and> selectedY g' = selectedY g \<and> legalMoves g' = legalMoves g"
  using assms by (simp add: handleMouseClick_def Let_def)

theorem handleMouseClick_not_your_turn_witness:
  "currentPlayer NewGame \<noteq> ''black''
   \<and> handleMouseClick NewGame ''black'' = Inr (NewGame\<lparr>message := ''Not your turn!''\<rparr>, [])"
  using handleMouseClick_not_your_turn [of NewGame "''black''"] by (simp add: NewGame_def)

text \<open>
  \<^bold>\<open>C9.\<close> \<^verbatim>\<open>applyMove\<close> from a square that holds a piece to the same square removes
  the piece from the board, since the source is cleared after the destination is
  written: the board afterwards is the board before with that one square emptied, every
  other square as it was. The move goes to the other player. This is the move of every
  malformed line, with the square \<open>(0, 0)\<close>.
\<close>

theorem applyMove_same_square_clears:
  assumes "inBoard r c" "board g r c = Some p"
  shows "\<exists>g'. applyMove g r c r c = Inr g' \<and> board g' r c = None
           \<and> board g' = setCell (board g) r c None
           \<and> (\<forall>y x. (y, x) \<noteq> (r, c) \<longrightarrow> board g' y x = board g y x)
           \<and> currentPlayer g' = (if currentPlayer g = ''white'' then ''black'' else ''white'')
           \<and> currentPlayer g' \<noteq> currentPlayer g \<and> board g' \<noteq> board g
           \<and> (\<forall>s. \<not> wellFormedMove s \<and> r = 0 \<and> c = 0
                 \<longrightarrow> readerTurn g (Line s) = Inr (g', True))"
proof -
  obtain g' where g': "applyMove g r c r c = Inr g'"
    using applyMove_Inr [OF assms(1) assms(1)] by blast
  have fr: "board g' = setCell (board g) r c None"
    using g' assms(1)
    by (auto simp add: applyMove_def Let_def setCell_def split: option.splits if_splits)
  have b: "board g' r c = None"
    by (simp add: fr setCell_def)
  have rest: "board g' y x = board g y x" if "(y, x) \<noteq> (r, c)" for y x
    using that by (auto simp add: fr setCell_def)
  have cp: "currentPlayer g' = (if currentPlayer g = ''white'' then ''black'' else ''white'')"
    using g' assms(1) by (auto simp add: applyMove_def Let_def split: option.splits if_splits)
  have ne: "board g' \<noteq> board g" using b assms(2) by auto
  have rd: "readerTurn g (Line s) = Inr (g', True)"
    if "\<not> wellFormedMove s" "r = 0" "c = 0" for s
    using that g' by (simp add: readerTurn_def parseMove_spec)
  show ?thesis using g' fr b rest cp ne rd by auto
qed

text \<open>The witness: on a new game the rook of \<open>(0, 0)\<close> is gone after a malformed line, and
  it has not gone to another square: the knight of \<open>(0, 1)\<close> and the pawn of \<open>(1, 0)\<close>
  are where they were.\<close>

theorem applyMove_same_square_clears_witness:
  "inBoard 0 0 \<and> board NewGame 0 0 = Some (mkPiece ''black'' ''rook'')
   \<and> (\<exists>g'. applyMove NewGame 0 0 0 0 = Inr g' \<and> board g' 0 0 = None
          \<and> board g' = setCell (board NewGame) 0 0 None
          \<and> board g' 0 1 = Some (mkPiece ''black'' ''knight'')
          \<and> board g' 1 0 = Some (mkPiece ''black'' ''pawn'')
          \<and> currentPlayer g' = ''black''
          \<and> readerTurn NewGame (Line ''hello'') = Inr (g', True))"
proof -
  have i: "inBoard 0 0" by (simp add: inBoard_def)
  have b: "board NewGame 0 0 = Some (mkPiece ''black'' ''rook'')"
    by (simp add: position_defs)
  have w: "\<not> wellFormedMove ''hello''" by (simp add: wellFormedMove_def)
  have c: "currentPlayer NewGame = ''white''" by (simp add: NewGame_def)
  have o: "board NewGame 0 1 = Some (mkPiece ''black'' ''knight'')"
    "board NewGame 1 0 = Some (mkPiece ''black'' ''pawn'')"
    by (simp_all add: position_defs)
  obtain g' where g': "applyMove NewGame 0 0 0 0 = Inr g'" "board g' 0 0 = None"
    "board g' = setCell (board NewGame) 0 0 None"
    "\<forall>y x. (y, x) \<noteq> (0, 0) \<longrightarrow> board g' y x = board NewGame y x"
    "currentPlayer g' = (if currentPlayer NewGame = ''white'' then ''black'' else ''white'')"
    "\<forall>s. \<not> wellFormedMove s \<and> (0::int) = 0 \<and> (0::int) = 0
        \<longrightarrow> readerTurn NewGame (Line s) = Inr (g', True)"
    using applyMove_same_square_clears [OF i b] by blast
  have "board g' 0 1 = board NewGame 0 1" "board g' 1 0 = board NewGame 1 0"
    using g'(4) by simp_all
  then show ?thesis using i b w c o g' by simp
qed

subsection \<open>The end of the game\<close>

text \<open>
  \<^bold>\<open>C2.\<close> After \<open>gameOver\<close> is set no move may change the board or the player to
  move. The run below is a game in which the local player is black: white's lines
  \<^verbatim>\<open>e2e4\<close>, \<^verbatim>\<open>d1h5\<close>, \<^verbatim>\<open>h5e8\<close> arrive on the connection, black answers \<^verbatim>\<open>f7f6\<close> and
  \<^verbatim>\<open>a7a6\<close> with two clicks each, and the third line takes the king of e8. The flag is
  then set and the main loop waits in \<^verbatim>\<open>PollEvent\<close>, which has passed its test
  \<^verbatim>\<open>!g.gameOver\<close> before; the reader, whose loop has no such test, applies the next
  line \<^verbatim>\<open>a2a3\<close>: the pawn leaves \<open>(6, 0)\<close> and the player to move changes.
\<close>

theorem reader_moves_after_gameOver:
  "\<exists>p1 p2.
      run ''black'' start
        [Test, Read (Line ''e2e4''),
         Deliver (EventMouse 40 4 MouseLeft), Test, Deliver (EventMouse 40 8 MouseLeft), Test,
         Read (Line ''d1h5''),
         Deliver (EventMouse 0 4 MouseLeft), Test, Deliver (EventMouse 0 8 MouseLeft), Test,
         Read (Line ''h5e8'')] = Some p1
      \<and> gameOver (game p1) \<and> mainPc p1 = InPoll
      \<and> wire p1 = [''f7f6'' @ [CHR 0x0A], ''a7a6'' @ [CHR 0x0A]]
      \<and> step ''black'' p1 (Read (Line ''a2a3'')) = Some p2
      \<and> board (game p1) 6 0 = Some (mkPiece ''white'' ''pawn'')
      \<and> board (game p2) 6 0 = None
      \<and> board (game p2) 5 0 = Some (mkPiece ''white'' ''pawn'')
      \<and> currentPlayer (game p1) = ''black'' \<and> currentPlayer (game p2) = ''white''"
  by (simp add: position_defs format_defs play_defs)

theorem reader_moves_after_gameOver_witness:
  "\<exists>p1 p2. gameOver (game p1) \<and> step ''black'' p1 (Read (Line ''a2a3'')) = Some p2
      \<and> board (game p2) 6 0 \<noteq> board (game p1) 6 0
      \<and> currentPlayer (game p2) \<noteq> currentPlayer (game p1)"
proof -
  obtain p1 p2 where "gameOver (game p1)" "step ''black'' p1 (Read (Line ''a2a3'')) = Some p2"
    "board (game p1) 6 0 = Some (mkPiece ''white'' ''pawn'')" "board (game p2) 6 0 = None"
    "currentPlayer (game p1) = ''black''" "currentPlayer (game p2) = ''white''"
    using reader_moves_after_gameOver by blast
  then show ?thesis by (intro exI [of _ p1] exI [of _ p2]) simp
qed

subsection \<open>The key of the legal-move map\<close>

lemma digit_cases:
  fixes d :: nat
  assumes "d < 10"
  obtains "d = 0" | "d = 1" | "d = 2" | "d = 3" | "d = 4" | "d = 5" | "d = 6" | "d = 7"
    | "d = 8" | "d = 9"
proof -
  have "d \<in> {0, 1, 2, 3, 4, 5, 6, 7, 8, 9}" using assms by auto
  then show ?thesis using that by blast
qed

lemma of_char_digitChar: "d < 10 \<Longrightarrow> (of_char (digitChar d) :: nat) = 48 + d"
  by (cases d rule: digit_cases) (simp_all add: digitChar_def)

lemma digitChar_inj:
  assumes "a < 10" "b < 10" "digitChar a = digitChar b"
  shows "a = b"
proof -
  have "(of_char (digitChar a) :: nat) = of_char (digitChar b)" using assms(3) by simp
  then show ?thesis
    using of_char_digitChar [OF assms(1)] of_char_digitChar [OF assms(2)] by simp
qed

lemma digitChar_range:
  "d < 10 \<Longrightarrow> digitChar d \<noteq> CHR '','' \<and> digitChar d \<noteq> CHR ''-''"
  by (cases d rule: digit_cases) (simp_all add: digitChar_def)

lemma digits_nonempty: "digits n \<noteq> []"
  by (subst digits.simps) simp

lemma digits_length_one: "length (digits n) = Suc 0 \<longleftrightarrow> n < 10"
  by (subst digits.simps) (simp add: digits_nonempty)

lemma digits_chars: "c \<in> set (digits n) \<Longrightarrow> c \<noteq> CHR '','' \<and> c \<noteq> CHR ''-''"
proof (induction n rule: digits.induct)
  case (1 n)
  show ?case
  proof (cases "n < 10")
    case True
    then have "digits n = [digitChar n]" by (subst digits.simps) simp
    then show ?thesis using "1.prems" digitChar_range [OF True] by simp
  next
    case False
    then have "digits n = digits (n div 10) @ [digitChar (n mod 10)]" by (subst digits.simps) simp
    then have "c \<in> set (digits (n div 10)) \<or> c = digitChar (n mod 10)" using "1.prems" by auto
    then show ?thesis
    proof
      assume "c \<in> set (digits (n div 10))"
      then show ?thesis using "1.IH" False by simp
    next
      assume "c = digitChar (n mod 10)"
      then show ?thesis using digitChar_range [of "n mod 10"] by simp
    qed
  qed
qed

lemma digits_inj: "digits n = digits m \<Longrightarrow> n = m"
proof (induction n arbitrary: m rule: digits.induct)
  case (1 n)
  show ?case
  proof (cases "n < 10")
    case True
    then have n: "digits n = [digitChar n]" by (subst digits.simps) simp
    then have "length (digits m) = Suc 0" using "1.prems" by simp
    then have m: "m < 10" by (simp add: digits_length_one)
    then have "digits m = [digitChar m]" by (subst digits.simps) simp
    then show ?thesis using n "1.prems" True m digitChar_inj by simp
  next
    case False
    then have n: "digits n = digits (n div 10) @ [digitChar (n mod 10)]" by (subst digits.simps) simp
    have "length (digits n) \<noteq> Suc 0" using False by (simp add: digits_length_one)
    then have "\<not> m < 10" using "1.prems" by (simp add: digits_length_one)
    then have m: "digits m = digits (m div 10) @ [digitChar (m mod 10)]" by (subst digits.simps) simp
    have e: "digits (n div 10) = digits (m div 10)" "digitChar (n mod 10) = digitChar (m mod 10)"
      using n m "1.prems" by simp_all
    have "n div 10 = m div 10" using "1.IH" [OF False e(1)] .
    moreover have "n mod 10 = m mod 10" using e(2) by (intro digitChar_inj) simp_all
    ultimately show ?thesis by (metis div_mult_mod_eq)
  qed
qed

lemma fmtD_inj: "fmtD a = fmtD b \<Longrightarrow> a = b"
proof -
  assume e: "fmtD a = fmtD b"
  have h: "hd (digits n) \<noteq> CHR ''-''" for n
    using digits_chars [of "hd (digits n)" n] digits_nonempty [of n] by simp
  show ?thesis
  proof (cases "a < 0")
    case True
    show ?thesis
    proof (cases "b < 0")
      case b: True
      then have "digits (nat (- a)) = digits (nat (- b))" using e True by (simp add: fmtD_def)
      then have "nat (- a) = nat (- b)" by (rule digits_inj)
      then show ?thesis using True b by simp
    next
      case False
      then have "CHR ''-'' # digits (nat (- a)) = digits (nat b)" using e True by (simp add: fmtD_def)
      then have "hd (digits (nat b)) = CHR ''-''" by (metis list.sel(1))
      then show ?thesis using h by simp
    qed
  next
    case False
    show ?thesis
    proof (cases "b < 0")
      case True
      then have "CHR ''-'' # digits (nat (- b)) = digits (nat a)" using e False by (simp add: fmtD_def)
      then have "hd (digits (nat a)) = CHR ''-''" by (metis list.sel(1))
      then show ?thesis using h by simp
    next
      case b: False
      then have "digits (nat a) = digits (nat b)" using e False by (simp add: fmtD_def)
      then have "nat a = nat b" by (rule digits_inj)
      then show ?thesis using False b by simp
    qed
  qed
qed

lemma fmtD_no_comma: "CHR '','' \<notin> set (fmtD a)"
  using digits_chars [of "CHR '',''"] by (auto simp add: fmtD_def)

lemma split_at_separator:
  "c \<notin> set xs \<Longrightarrow> c \<notin> set xs' \<Longrightarrow> xs @ c # ys = xs' @ c # ys' \<Longrightarrow> xs = xs' \<and> ys = ys'"
proof (induction xs arbitrary: xs')
  case Nil
  then show ?case by (cases xs') auto
next
  case (Cons a xs)
  then show ?case by (cases xs') auto
qed

lemma key_inj: "key x y = key x' y' \<longleftrightarrow> x = x' \<and> y = y'"
proof
  assume e: "key x y = key x' y'"
  then have "fmtD x @ CHR '','' # fmtD y = fmtD x' @ CHR '','' # fmtD y'"
    by (simp add: key_def)
  then have "fmtD x = fmtD x' \<and> fmtD y = fmtD y'"
    by (intro split_at_separator [of "CHR '',''"]) (simp_all add: fmtD_no_comma)
  then show "x = x' \<and> y = y'" using fmtD_inj by blast
next
  assume "x = x' \<and> y = y'"
  then show "key x y = key x' y'" by simp
qed

subsection \<open>What the generators add\<close>

lemma addDests_empty [simp]: "addDests g {} = g"
  by (simp add: addDests_def)

lemma board_addDests [simp]: "board (addDests g S) = board g"
  by (simp add: addDests_def)

lemma addDests_addDests: "addDests (addDests g A) B = addDests g (A \<union> B)"
proof -
  have "(\<lambda>k. if \<exists>(ny, nx)\<in>B. k = key nx ny then Some True
             else if \<exists>(ny, nx)\<in>A. k = key nx ny then Some True else legalMoves g k)
        = (\<lambda>k. if \<exists>(ny, nx)\<in>A \<union> B. k = key nx ny then Some True else legalMoves g k)"
    by (auto simp add: fun_eq_iff)
  then show ?thesis by (simp add: addDests_def cong: if_cong)
qed

lemma addMove_addDests: "addMove g x y c = addDests g {(y, x)}"
proof -
  have "(legalMoves g)(key x y \<mapsto> True)
        = (\<lambda>k. if \<exists>(ny, nx)\<in>{(y, x)}. k = key nx ny then Some True else legalMoves g k)"
    by (auto simp add: fun_eq_iff)
  then show ?thesis by (simp add: addMove_def addDests_def)
qed

lemma foldl_addDests:
  assumes "\<And>g i. i \<in> set is \<Longrightarrow> f g i = addDests g (S (board g) i)"
  shows "foldl f g is = addDests g (\<Union>i\<in>set is. S (board g) i)"
  using assms
proof (induction "is" arbitrary: g)
  case Nil
  then show ?case by simp
next
  case (Cons i "is")
  have st: "f g i = addDests g (S (board g) i)"
    using Cons.prems by simp
  have "foldl f (f g i) is = addDests (f g i) (\<Union>j\<in>set is. S (board (f g i)) j)"
    using Cons.prems by (intro Cons.IH) simp
  then have "foldl f (f g i) is = addDests g (S (board g) i \<union> (\<Union>j\<in>set is. S (board g) j))"
    by (simp only: st board_addDests addDests_addDests)
  then show ?case by simp
qed

lemma rayFrom_done: "\<not> d < 8 \<Longrightarrow> Collect (rayFrom b c y x dy dx d) = {}"
  by (auto simp add: rayFrom_def)

lemma rayFrom_off:
  assumes "d < 8" "\<not> inBoard (y + d * dy) (x + d * dx)"
  shows "Collect (rayFrom b c y x dy dx d) = {}"
proof -
  have False if "rayFrom b c y x dy dx d (ny, nx)" for ny nx
  proof -
    from that obtain d' where d': "d \<le> d'" "ny = y + d' * dy" "nx = x + d' * dx" "inBoard ny nx"
      "\<forall>e\<in>{d..<d'}. inBoard (y + e * dy) (x + e * dx) \<and> b (y + e * dy) (x + e * dx) = None"
      by (auto simp add: rayFrom_def)
    show False
    proof (cases "d' = d")
      case True
      then show ?thesis using d' assms by simp
    next
      case False
      then have "d \<in> {d..<d'}" using d'(1) by simp
      then show ?thesis using d'(5) assms by blast
    qed
  qed
  then show ?thesis by auto
qed

lemma rayFrom_hit:
  assumes "d < 8" "inBoard (y + d * dy) (x + d * dx)" "b (y + d * dy) (x + d * dx) = Some t"
  shows "Collect (rayFrom b c y x dy dx d) = (if color t \<noteq> c then {(y + d * dy, x + d * dx)} else {})"
proof -
  have "rayFrom b c y x dy dx d (ny, nx) \<longleftrightarrow> color t \<noteq> c \<and> ny = y + d * dy \<and> nx = x + d * dx" for ny nx
  proof
    assume "rayFrom b c y x dy dx d (ny, nx)"
    then obtain d' where d': "d \<le> d'" "ny = y + d' * dy" "nx = x + d' * dx" "inBoard ny nx"
      "\<forall>e\<in>{d..<d'}. inBoard (y + e * dy) (x + e * dx) \<and> b (y + e * dy) (x + e * dx) = None"
      "emptyOrOpposing b c ny nx"
      by (auto simp add: rayFrom_def)
    have "d' = d"
    proof (rule ccontr)
      assume "d' \<noteq> d"
      then have "d \<in> {d..<d'}" using d'(1) by simp
      then show False using d'(5) assms by auto
    qed
    then show "color t \<noteq> c \<and> ny = y + d * dy \<and> nx = x + d * dx"
      using d' assms by (simp add: emptyOrOpposing_def)
  next
    assume "color t \<noteq> c \<and> ny = y + d * dy \<and> nx = x + d * dx"
    then show "rayFrom b c y x dy dx d (ny, nx)"
      using assms by (auto simp add: rayFrom_def emptyOrOpposing_def intro!: bexI [of _ d])
  qed
  then show ?thesis by auto
qed

lemma rayFrom_step:
  assumes "d < 8" "inBoard (y + d * dy) (x + d * dx)" "b (y + d * dy) (x + d * dx) = None"
  shows "Collect (rayFrom b c y x dy dx d) =
           insert (y + d * dy, x + d * dx) (Collect (rayFrom b c y x dy dx (d + 1)))"
proof -
  have "rayFrom b c y x dy dx d (ny, nx) \<longleftrightarrow>
          (ny = y + d * dy \<and> nx = x + d * dx) \<or> rayFrom b c y x dy dx (d + 1) (ny, nx)" for ny nx
  proof
    assume "rayFrom b c y x dy dx d (ny, nx)"
    then obtain d' where d': "d \<le> d'" "d' \<le> 7" "ny = y + d' * dy" "nx = x + d' * dx" "inBoard ny nx"
      "\<forall>e\<in>{d..<d'}. inBoard (y + e * dy) (x + e * dx) \<and> b (y + e * dy) (x + e * dx) = None"
      "emptyOrOpposing b c ny nx"
      by (auto simp add: rayFrom_def)
    show "(ny = y + d * dy \<and> nx = x + d * dx) \<or> rayFrom b c y x dy dx (d + 1) (ny, nx)"
    proof (cases "d' = d")
      case True
      then show ?thesis using d' by simp
    next
      case False
      then have "d + 1 \<le> d'" using d'(1) by simp
      moreover have "\<forall>e\<in>{d + 1..<d'}. inBoard (y + e * dy) (x + e * dx) \<and> b (y + e * dy) (x + e * dx) = None"
        using d'(6) by simp
      ultimately have "rayFrom b c y x dy dx (d + 1) (ny, nx)"
        using d' unfolding rayFrom_def by (auto intro!: bexI [of _ d'])
      then show ?thesis ..
    qed
  next
    assume "(ny = y + d * dy \<and> nx = x + d * dx) \<or> rayFrom b c y x dy dx (d + 1) (ny, nx)"
    then show "rayFrom b c y x dy dx d (ny, nx)"
    proof
      assume "ny = y + d * dy \<and> nx = x + d * dx"
      then show ?thesis using assms by (auto simp add: rayFrom_def emptyOrOpposing_def intro!: bexI [of _ d])
    next
      assume "rayFrom b c y x dy dx (d + 1) (ny, nx)"
      then obtain d' where d': "d + 1 \<le> d'" "d' \<le> 7" "ny = y + d' * dy" "nx = x + d' * dx" "inBoard ny nx"
        "\<forall>e\<in>{d + 1..<d'}. inBoard (y + e * dy) (x + e * dx) \<and> b (y + e * dy) (x + e * dx) = None"
        "emptyOrOpposing b c ny nx"
        by (auto simp add: rayFrom_def)
      have "\<forall>e\<in>{d..<d'}. inBoard (y + e * dy) (x + e * dx) \<and> b (y + e * dy) (x + e * dx) = None"
      proof
        fix e assume e: "e \<in> {d..<d'}"
        show "inBoard (y + e * dy) (x + e * dx) \<and> b (y + e * dy) (x + e * dx) = None"
        proof (cases "e = d")
          case True
          then show ?thesis using assms by simp
        next
          case False
          then have "e \<in> {d + 1..<d'}" using e by simp
          then show ?thesis using d'(6) by blast
        qed
      qed
      then show ?thesis using d' unfolding rayFrom_def by (auto intro!: bexI [of _ d'])
    qed
  qed
  then show ?thesis by auto
qed

lemma slideRay_addDests:
  "slideRay g y x c dy dx d = addDests g (Collect (rayFrom (board g) c y x dy dx d))"
proof (induction g y x c dy dx d rule: slideRay.induct)
  case (1 g y x c dy dx d)
  show ?case
  proof (cases "d < 8")
    case False
    then show ?thesis by (subst slideRay.simps) (simp add: rayFrom_done)
  next
    case d: True
    show ?thesis
    proof (cases "inBoard (y + d * dy) (x + d * dx)")
      case False
      then have "slideRay g y x c dy dx d = g"
        using d by (subst slideRay.simps) (auto simp add: inBoard_def Let_def)
      then show ?thesis by (simp only: rayFrom_off [where b = "board g", OF d False] addDests_empty)
    next
      case ib: True
      then have rng: "\<not> (x + d * dx < 0 \<or> x + d * dx \<ge> 8 \<or> y + d * dy < 0 \<or> y + d * dy \<ge> 8)"
        by (auto simp add: inBoard_def)
      show ?thesis
      proof (cases "board g (y + d * dy) (x + d * dx)")
        case (Some t)
        have "slideRay g y x c dy dx d = (if color t \<noteq> c then addMove g (x + d * dx) (y + d * dy) c else g)"
          using d rng Some by (subst slideRay.simps) (simp add: Let_def)
        then show ?thesis
          by (simp only: rayFrom_hit [where b = "board g", OF d ib Some] addMove_addDests addDests_empty if_distrib [of "addDests g"] split: if_splits)
      next
        case None
        have "slideRay g y x c dy dx d = slideRay (addMove g (x + d * dx) (y + d * dy) c) y x c dy dx (d + 1)"
          using d rng None by (subst slideRay.simps) (simp add: Let_def)
        also have "\<dots> = addDests (addMove g (x + d * dx) (y + d * dy) c)
                      (Collect (rayFrom (board (addMove g (x + d * dx) (y + d * dy) c)) c y x dy dx (d + 1)))"
          using d rng None by (intro "1.IH") auto
        finally show ?thesis
          by (simp only: rayFrom_step [where b = "board g", OF d ib None] addMove_addDests addDests_addDests
                board_addDests insert_is_Un [symmetric])
      qed
    qed
  qed
qed

lemma addPawnMoves_addDests:
  "addPawnMoves g y x c =
     addDests g (pawnForward (board g) y x (if c = ''black'' then 1 else - 1) (if c = ''black'' then 1 else 6)
                 \<union> (\<Union>dx\<in>set [- 1, 1]. pawnCapture (board g) c y x (if c = ''black'' then 1 else - 1) dx))"
proof -
  define dir :: int where "dir = (if c = ''black'' then 1 else - 1)"
  define startRow :: int where "startRow = (if c = ''black'' then 1 else 6)"
  define g1 where "g1 = (if y + dir \<ge> 0 \<and> y + dir < 8 \<and> board g (y + dir) x = None
                then (let g' = addMove g x (y + dir) c
                      in if y = startRow
                         then (let nny = y + 2 * dir
                               in if nny \<ge> 0 \<and> nny < 8 \<and> board g' nny x = None
                                  then addMove g' x nny c else g')
                         else g')
                else g)"
  define f where "f = (\<lambda>g dx.
                  let nx = x + dx; ny = y + dir
                  in if nx \<ge> 0 \<and> nx < 8 \<and> ny \<ge> 0 \<and> ny < 8
                     then (case board g ny nx of
                             None \<Rightarrow> g
                           | Some target \<Rightarrow> if color target \<noteq> c then addMove g nx ny c else g)
                     else g)"
  have a: "addPawnMoves g y x c = foldl f g1 [- 1, 1]"
    unfolding addPawnMoves_def dir_def [symmetric] startRow_def [symmetric] g1_def f_def Let_def ..
  have g1: "g1 = addDests g (pawnForward (board g) y x dir startRow)"
  proof (cases "y + dir \<ge> 0 \<and> y + dir < 8 \<and> board g (y + dir) x = None")
    case False
    then show ?thesis by (auto simp add: g1_def pawnForward_def)
  next
    case c1: True
    show ?thesis
    proof (cases "y = startRow \<and> y + 2 * dir \<ge> 0 \<and> y + 2 * dir < 8 \<and> board g (y + 2 * dir) x = None")
      case True
      have "g1 = addDests (addDests g {(y + dir, x)}) {(y + 2 * dir, x)}"
        using c1 True by (auto simp add: g1_def Let_def addMove_addDests)
      moreover have "pawnForward (board g) y x dir startRow = {(y + dir, x)} \<union> {(y + 2 * dir, x)}"
        using c1 True by (auto simp add: pawnForward_def)
      ultimately show ?thesis by (simp only: addDests_addDests)
    next
      case False
      then show ?thesis using c1
        by (auto simp add: g1_def pawnForward_def Let_def addMove_addDests)
    qed
  qed
  have f: "f h dx = addDests h (pawnCapture (board h) c y x dir dx)" for h dx
    by (simp add: f_def pawnCapture_def opposing_def Let_def addMove_addDests split: option.splits)
  have "foldl f g1 [- 1, 1] = addDests g1 (\<Union>dx\<in>set [- 1, 1]. pawnCapture (board g1) c y x dir dx)"
    by (rule foldl_addDests) (rule f)
  then show ?thesis
    unfolding a dir_def [symmetric] startRow_def [symmetric]
    by (simp only: g1 board_addDests addDests_addDests)
qed

lemma in_pawnForward:
  "(ny, nx) \<in> pawnForward b y x dir s \<longleftrightarrow>
     nx = x \<and> 0 \<le> y + dir \<and> y + dir < 8 \<and> b (y + dir) x = None
     \<and> (ny = y + dir
        \<or> (ny = y + 2 * dir \<and> y = s \<and> 0 \<le> y + 2 * dir \<and> y + 2 * dir < 8 \<and> b (y + 2 * dir) x = None))"
  by (auto simp add: pawnForward_def)

lemma in_pawnCapture:
  "(ny, nx) \<in> pawnCapture b c y x dir dx \<longleftrightarrow>
     ny = y + dir \<and> nx = x + dx \<and> 0 \<le> nx \<and> nx < 8 \<and> 0 \<le> ny \<and> ny < 8 \<and> opposing b c ny nx"
  by (auto simp add: pawnCapture_def)

lemma pawn_sets_white:
  assumes "inBoard y x"
  shows "(ny, nx) \<in> pawnForward b y x (- 1) 6 \<union> (pawnCapture b ''white'' y x (- 1) (- 1) \<union> pawnCapture b ''white'' y x (- 1) 1)
         \<longleftrightarrow> pawnSpec b ''white'' y x (ny, nx)"
  using assms
  by (simp add: in_pawnForward in_pawnCapture pawnSpec_def inBoard_def Let_def) fastforce

lemma pawn_sets_black:
  assumes "inBoard y x"
  shows "(ny, nx) \<in> pawnForward b y x 1 1 \<union> (pawnCapture b ''black'' y x 1 (- 1) \<union> pawnCapture b ''black'' y x 1 1)
         \<longleftrightarrow> pawnSpec b ''black'' y x (ny, nx)"
  using assms
  by (simp add: in_pawnForward in_pawnCapture pawnSpec_def inBoard_def Let_def) fastforce

lemma hop_step:
  "(if nx \<ge> 0 \<and> nx < 8 \<and> ny \<ge> 0 \<and> ny < 8
    then (case board g ny nx of
            None \<Rightarrow> addMove g nx ny c
          | Some target \<Rightarrow> if color target \<noteq> c then addMove g nx ny c else g)
    else g) = addDests g (hop (board g) c ny nx)"
  by (auto simp add: hop_def inBoard_def emptyOrOpposing_def addMove_addDests split: option.splits)

lemma addKnightMoves_addDests:
  "addKnightMoves g y x c =
     addDests g (\<Union>i\<in>set [0..<length [- 2, - 2, - 1, - 1, 1, 1, 2, 2 :: int]].
                   hop (board g) c (y + [- 2, - 2, - 1, - 1, 1, 1, 2, 2] ! i)
                                   (x + [- 1, 1, - 2, 2, - 2, 2, - 1, 1] ! i))"
  unfolding addKnightMoves_def Let_def hop_step
  by (rule foldl_addDests) simp

lemma addKingMoves_addDests:
  "addKingMoves g y x c =
     addDests g (\<Union>dy\<in>set [- 1, 0, 1]. \<Union>dx\<in>set [- 1, 0, 1].
                   if dy = 0 \<and> dx = 0 then {} else hop (board g) c (y + dy) (x + dx))"
proof -
  have inner: "foldl (\<lambda>g dx. if dy = 0 \<and> dx = 0 then g else addDests g (hop (board g) c (y + dy) (x + dx))) h [- 1, 0, 1]
        = addDests h (\<Union>dx\<in>set [- 1, 0, 1]. if dy = 0 \<and> dx = 0 then {} else hop (board h) c (y + dy) (x + dx))" for h dy
    by (rule foldl_addDests) simp
  show ?thesis
    unfolding addKingMoves_def Let_def hop_step inner
    by (rule foldl_addDests) simp
qed

lemma addSlidingMoves_addDests:
  "addSlidingMoves g y x c yDirs xDirs =
     addDests g (\<Union>i\<in>set [0..<length yDirs]. Collect (rayFrom (board g) c y x (yDirs ! i) (xDirs ! i) 1))"
  unfolding addSlidingMoves_def slideRay_addDests
  by (rule foldl_addDests) simp

lemma rays_zip:
  assumes "length xDirs = length yDirs"
  shows "(\<Union>i\<in>set [0..<length yDirs]. Collect (rayFrom b c y x (yDirs ! i) (xDirs ! i) 1))
         = {d. \<exists>dir\<in>set (zip yDirs xDirs). rayFrom b c y x (fst dir) (snd dir) 1 d}"
  using assms by (auto simp add: set_zip) blast

lemma lookup_addDests:
  "lookupMove (legalMoves (addDests (g\<lparr>legalMoves := Map.empty\<rparr>) S)) k
     \<longleftrightarrow> (\<exists>ny nx. k = key nx ny \<and> (ny, nx) \<in> S)"
  by (auto simp add: addDests_def lookupMove_def)

lemma rayFrom_okDest: "rayFrom b c y x dy dx d dest \<Longrightarrow> okDest b c dest"
  by (auto simp add: rayFrom_def okDest_def)

text \<open>A ray that starts on the board leaves it within seven steps, so the distances
  from 1 to 7 of \<open>rayFrom\<close> are all there are.\<close>

lemma ray_square_within_seven:
  assumes "inBoard y x" "dir \<in> set (orthogonal @ diagonal)" "1 \<le> d"
    "inBoard (y + d * fst dir) (x + d * snd dir)"
  shows "d \<le> 7"
  using assms by (auto simp add: inBoard_def orthogonal_def diagonal_def)

lemma hop_okDest: "dest \<in> hop b c ny nx \<Longrightarrow> okDest b c dest"
  by (auto simp add: hop_def okDest_def split: if_splits)

lemma pawnSpec_okDest: "pawnSpec b c y x dest \<Longrightarrow> okDest b c dest"
  by (auto simp add: pawnSpec_def okDest_def emptyOrOpposing_def opposing_def Let_def split: option.splits)

subsection \<open>\<^verbatim>\<open>calculateLegalMoves\<close> by kind of piece\<close>

lemma sliding_gen:
  assumes "length xDirs = length yDirs" "raysOf p = zip yDirs xDirs"
  shows "addSlidingMoves (g\<lparr>legalMoves := Map.empty\<rparr>) y x (color p) yDirs xDirs
           = addDests (g\<lparr>legalMoves := Map.empty\<rparr>) (Collect (slidingSpec (board g) p y x))"
proof -
  have "Collect (slidingSpec (board g) p y x)
          = {d. \<exists>dir\<in>set (zip yDirs xDirs). rayFrom (board g) (color p) y x (fst dir) (snd dir) 1 d}"
    by (simp add: slidingSpec_def [abs_def] assms(2))
  moreover have "board (g\<lparr>legalMoves := Map.empty\<rparr>) = board g" by simp
  ultimately show ?thesis
    by (simp only: addSlidingMoves_addDests rays_zip [OF assms(1)])
qed

lemma calc_sliding:
  assumes "inBoard y x" "board g y x = Some p" "isRook p \<or> isBishop p \<or> isQueen p"
  shows "calculateLegalMoves g y x =
           Inr (addDests (g\<lparr>legalMoves := Map.empty\<rparr>) (Collect (slidingSpec (board g) p y x)))"
proof -
  consider (rook) "isRook p" | (bishop) "isBishop p" | (queen) "isQueen p"
    using assms(3) by blast
  then show ?thesis
  proof cases
    case rook
    have r: "raysOf p = zip [- 1, 1, 0, 0] [0, 0, - 1, 1]"
      using rook by (simp add: raysOf_def orthogonal_def)
    have "calculateLegalMoves g y x =
            Inr (addSlidingMoves (g\<lparr>legalMoves := Map.empty\<rparr>) y x (color p) [- 1, 1, 0, 0] [0, 0, - 1, 1])"
      using rook assms(1,2) by (auto simp add: calculateLegalMoves_def Let_def isRook_def)
    then show ?thesis by (simp only: sliding_gen [OF _ r] list.size)
  next
    case bishop
    have r: "raysOf p = zip [- 1, - 1, 1, 1] [- 1, 1, - 1, 1]"
      using bishop by (auto simp add: raysOf_def diagonal_def isRook_def isBishop_def)
    have "calculateLegalMoves g y x =
            Inr (addSlidingMoves (g\<lparr>legalMoves := Map.empty\<rparr>) y x (color p) [- 1, - 1, 1, 1] [- 1, 1, - 1, 1])"
      using bishop assms(1,2) by (auto simp add: calculateLegalMoves_def Let_def isBishop_def)
    then show ?thesis by (simp only: sliding_gen [OF _ r] list.size)
  next
    case queen
    have r: "raysOf p = zip [- 1, 1, 0, 0, - 1, - 1, 1, 1] [0, 0, - 1, 1, - 1, 1, - 1, 1]"
      using queen
      by (auto simp add: raysOf_def diagonal_def orthogonal_def isRook_def isBishop_def isQueen_def)
    have "calculateLegalMoves g y x =
            Inr (addSlidingMoves (g\<lparr>legalMoves := Map.empty\<rparr>) y x (color p)
                   [- 1, 1, 0, 0, - 1, - 1, 1, 1] [0, 0, - 1, 1, - 1, 1, - 1, 1])"
      using queen assms(1,2) by (auto simp add: calculateLegalMoves_def Let_def isQueen_def)
    then show ?thesis by (simp only: sliding_gen [OF _ r] list.size)
  qed
qed

lemma calc_pawn:
  assumes "inBoard y x" "board g y x = Some p" "c = ''white'' \<or> c = ''black''"
    "symbol p = pieces (c @ ''_pawn'')"
  shows "calculateLegalMoves g y x =
           Inr (addDests (g\<lparr>legalMoves := Map.empty\<rparr>) (Collect (pawnSpec (board g) c y x)))"
proof -
  have w: "pawnForward b y x (- 1) 6 \<union> (pawnCapture b ''white'' y x (- 1) (- 1) \<union> pawnCapture b ''white'' y x (- 1) 1)
            = Collect (pawnSpec b ''white'' y x)" for b
    using pawn_sets_white [OF assms(1)] by auto
  have b: "pawnForward b y x 1 1 \<union> (pawnCapture b ''black'' y x 1 (- 1) \<union> pawnCapture b ''black'' y x 1 1)
            = Collect (pawnSpec b ''black'' y x)" for b
    using pawn_sets_black [OF assms(1)] by auto
  show ?thesis
    using assms(3)
  proof
    assume "c = ''white''"
    then show ?thesis using assms(1,2,4)
      by (simp add: calculateLegalMoves_def Let_def addPawnMoves_addDests w)
  next
    assume "c = ''black''"
    then show ?thesis using assms(1,2,4)
      by (simp add: calculateLegalMoves_def Let_def addPawnMoves_addDests b)
  qed
qed

lemma lookup_addDests_key:
  "lookupMove (legalMoves (addDests (g\<lparr>legalMoves := Map.empty\<rparr>) S)) (key nx ny) \<longleftrightarrow> (ny, nx) \<in> S"
  by (auto simp add: lookup_addDests key_inj)

lemma calc_knight:
  assumes "inBoard y x" "board g y x = Some p"
    "symbol p = pieces ''white_knight'' \<or> symbol p = pieces ''black_knight''"
  shows "calculateLegalMoves g y x = Inr (addKnightMoves (g\<lparr>legalMoves := Map.empty\<rparr>) y x (color p))"
  using assms by (auto simp add: calculateLegalMoves_def Let_def)

lemma calc_king:
  assumes "inBoard y x" "board g y x = Some p"
    "symbol p = pieces ''white_king'' \<or> symbol p = pieces ''black_king''"
  shows "calculateLegalMoves g y x = Inr (addKingMoves (g\<lparr>legalMoves := Map.empty\<rparr>) y x (color p))"
  using assms by (auto simp add: calculateLegalMoves_def Let_def)

lemma calc_other:
  assumes "inBoard y x" "board g y x = Some p"
    "symbol p \<notin> {pieces ''white_pawn'', pieces ''black_pawn'', pieces ''white_rook'', pieces ''black_rook'',
        pieces ''white_bishop'', pieces ''black_bishop'', pieces ''white_queen'', pieces ''black_queen'',
        pieces ''white_knight'', pieces ''black_knight'', pieces ''white_king'', pieces ''black_king''}"
  shows "calculateLegalMoves g y x = Inr (g\<lparr>legalMoves := Map.empty\<rparr>)"
  using assms by (auto simp add: calculateLegalMoves_def Let_def)

lemma calc_okDest:
  assumes ib: "inBoard y x" and p: "board g y x = Some p"
    and wp: "symbol p = pieces ''white_pawn'' \<Longrightarrow> color p = ''white''"
    and bp: "symbol p = pieces ''black_pawn'' \<Longrightarrow> color p = ''black''"
  shows "\<exists>S. calculateLegalMoves g y x = Inr (addDests (g\<lparr>legalMoves := Map.empty\<rparr>) S)
             \<and> (\<forall>d\<in>S. okDest (board g) (color p) d)"
proof -
  consider (wpawn) "symbol p = pieces ''white_pawn''" | (bpawn) "symbol p = pieces ''black_pawn''"
    | (sliding) "isRook p \<or> isBishop p \<or> isQueen p"
    | (knight) "symbol p = pieces ''white_knight'' \<or> symbol p = pieces ''black_knight''"
    | (king) "symbol p = pieces ''white_king'' \<or> symbol p = pieces ''black_king''"
    | (other) "symbol p \<notin> {pieces ''white_pawn'', pieces ''black_pawn'', pieces ''white_rook'', pieces ''black_rook'',
        pieces ''white_bishop'', pieces ''black_bishop'', pieces ''white_queen'', pieces ''black_queen'',
        pieces ''white_knight'', pieces ''black_knight'', pieces ''white_king'', pieces ''black_king''}"
    unfolding isRook_def isBishop_def isQueen_def by blast
  then show ?thesis
  proof cases
    case wpawn
    have "calculateLegalMoves g y x =
            Inr (addDests (g\<lparr>legalMoves := Map.empty\<rparr>) (Collect (pawnSpec (board g) ''white'' y x)))"
      by (rule calc_pawn [OF ib p]) (simp_all add: wpawn)
    moreover have "\<forall>d\<in>Collect (pawnSpec (board g) ''white'' y x). okDest (board g) (color p) d"
      using wp [OF wpawn] pawnSpec_okDest by auto
    ultimately show ?thesis by blast
  next
    case bpawn
    have "calculateLegalMoves g y x =
            Inr (addDests (g\<lparr>legalMoves := Map.empty\<rparr>) (Collect (pawnSpec (board g) ''black'' y x)))"
      by (rule calc_pawn [OF ib p]) (simp_all add: bpawn)
    moreover have "\<forall>d\<in>Collect (pawnSpec (board g) ''black'' y x). okDest (board g) (color p) d"
      using bp [OF bpawn] pawnSpec_okDest by auto
    ultimately show ?thesis by blast
  next
    case sliding
    have "\<forall>d\<in>Collect (slidingSpec (board g) p y x). okDest (board g) (color p) d"
      using rayFrom_okDest by (auto simp add: slidingSpec_def)
    then show ?thesis using calc_sliding [OF ib p sliding] by blast
  next
    case knight
    show ?thesis
      unfolding calc_knight [OF ib p knight] addKnightMoves_addDests
      using hop_okDest by (intro exI conjI refl) auto
  next
    case king
    show ?thesis
      unfolding calc_king [OF ib p king] addKingMoves_addDests
      using hop_okDest by (intro exI conjI refl) (auto split: if_splits)
  next
    case other
    have "g\<lparr>legalMoves := Map.empty\<rparr> = addDests (g\<lparr>legalMoves := Map.empty\<rparr>) {}" by simp
    then show ?thesis using calc_other [OF ib p other] by (intro exI [of _ "{}"]) simp
  qed
qed

subsection \<open>The generated destinations\<close>

text \<open>
  \<^bold>\<open>C4.\<close> For a piece of either colour and any kind on a square of the board, on any
  board, every key that \<^verbatim>\<open>calculateLegalMoves\<close> leaves in the map is the key of a
  square inside the board that does not hold a piece of the moving piece's colour.
\<close>

theorem legalMoves_on_board_not_own_colour:
  assumes "inBoard y x" "c = ''white'' \<or> c = ''black''"
    "k \<in> set [''king'', ''queen'', ''rook'', ''bishop'', ''knight'', ''pawn'']"
    "board g y x = Some (mkPiece c k)"
  shows "\<exists>g'. calculateLegalMoves g y x = Inr g'
           \<and> (\<forall>s. lookupMove (legalMoves g') s \<longrightarrow>
                 (\<exists>ny nx. s = key nx ny \<and> inBoard ny nx
                    \<and> (\<forall>t. board g ny nx = Some t \<longrightarrow> color t \<noteq> c)))
           \<and> (\<forall>ny nx. lookupMove (legalMoves g') (key nx ny) \<longrightarrow>
                 inBoard ny nx \<and> (\<forall>t. board g ny nx = Some t \<longrightarrow> color t \<noteq> c))"
proof -
  have col: "color (mkPiece c k) = c" by (simp add: mkPiece_def)
  have wp: "symbol (mkPiece c k) = pieces ''white_pawn'' \<Longrightarrow> color (mkPiece c k) = ''white''"
    using assms(2,3) by (auto simp add: mkPiece_def)
  have bp: "symbol (mkPiece c k) = pieces ''black_pawn'' \<Longrightarrow> color (mkPiece c k) = ''black''"
    using assms(2,3) by (auto simp add: mkPiece_def)
  obtain S where S: "calculateLegalMoves g y x = Inr (addDests (g\<lparr>legalMoves := Map.empty\<rparr>) S)"
    "\<forall>d\<in>S. okDest (board g) c d"
    using calc_okDest [OF assms(1) assms(4) wp bp] col by auto
  have ok: "inBoard ny nx \<and> (\<forall>t. board g ny nx = Some t \<longrightarrow> color t \<noteq> c)"
    if "(ny, nx) \<in> S" for ny nx
    using S(2) that by (auto simp add: okDest_def emptyOrOpposing_def)
  have 1: "\<forall>s. lookupMove (legalMoves (addDests (g\<lparr>legalMoves := Map.empty\<rparr>) S)) s \<longrightarrow>
                 (\<exists>ny nx. s = key nx ny \<and> inBoard ny nx
                    \<and> (\<forall>t. board g ny nx = Some t \<longrightarrow> color t \<noteq> c))"
    using ok by (simp add: lookup_addDests) blast
  have 2: "\<forall>ny nx. lookupMove (legalMoves (addDests (g\<lparr>legalMoves := Map.empty\<rparr>) S))
                      (key nx ny) \<longrightarrow>
                 inBoard ny nx \<and> (\<forall>t. board g ny nx = Some t \<longrightarrow> color t \<noteq> c)"
    using ok by (simp only: lookup_addDests_key) blast
  show ?thesis
    using S(1) 1 2 by blast
qed

theorem legalMoves_on_board_not_own_colour_witness:
  "inBoard 7 1 \<and> board NewGame 7 1 = Some (mkPiece ''white'' ''knight'')
   \<and> (\<exists>g'. calculateLegalMoves NewGame 7 1 = Inr g'
          \<and> (\<forall>ny nx. lookupMove (legalMoves g') (key nx ny) \<longrightarrow>
                inBoard ny nx \<and> (\<forall>t. board NewGame ny nx = Some t \<longrightarrow> color t \<noteq> ''white'')))"
proof -
  have i: "inBoard 7 1" by (simp add: inBoard_def)
  have b: "board NewGame 7 1 = Some (mkPiece ''white'' ''knight'')" by (simp add: position_defs)
  show ?thesis using legalMoves_on_board_not_own_colour [OF i _ _ b] i b by simp blast
qed

text \<open>
  \<^bold>\<open>C5.\<close> For a rook, a bishop or a queen on a square of the board, on any board, the
  keys that \<^verbatim>\<open>calculateLegalMoves\<close> leaves in the map are those of the squares of the
  piece's rays: on each ray the empty squares before the first occupied square, and
  that square when it holds a piece of another colour. On a new game the white rook
  of \<open>(7, 0)\<close> has no destination.
\<close>

theorem sliding_destinations:
  assumes "inBoard y x" "board g y x = Some p" "isRook p \<or> isBishop p \<or> isQueen p"
  shows "(\<exists>g'. calculateLegalMoves g y x = Inr g'
           \<and> (\<forall>s. lookupMove (legalMoves g') s \<longleftrightarrow>
                 (\<exists>ny nx. s = key nx ny \<and> slidingSpec (board g) p y x (ny, nx)))
           \<and> (\<forall>ny nx. lookupMove (legalMoves g') (key nx ny)
                 \<longleftrightarrow> slidingSpec (board g) p y x (ny, nx)))
         \<and> board NewGame 7 0 = Some (mkPiece ''white'' ''rook'')
         \<and> (\<exists>g'. calculateLegalMoves NewGame 7 0 = Inr g' \<and> legalMoves g' = Map.empty)"
proof (intro conjI)
  show "\<exists>g'. calculateLegalMoves g y x = Inr g'
           \<and> (\<forall>s. lookupMove (legalMoves g') s \<longleftrightarrow>
                 (\<exists>ny nx. s = key nx ny \<and> slidingSpec (board g) p y x (ny, nx)))
           \<and> (\<forall>ny nx. lookupMove (legalMoves g') (key nx ny)
                 \<longleftrightarrow> slidingSpec (board g) p y x (ny, nx))"
  proof (intro exI conjI allI)
    show "calculateLegalMoves g y x =
            Inr (addDests (g\<lparr>legalMoves := Map.empty\<rparr>) (Collect (slidingSpec (board g) p y x)))"
      by (rule calc_sliding [OF assms])
    show "lookupMove (legalMoves (addDests (g\<lparr>legalMoves := Map.empty\<rparr>)
                (Collect (slidingSpec (board g) p y x)))) s
            \<longleftrightarrow> (\<exists>ny nx. s = key nx ny \<and> slidingSpec (board g) p y x (ny, nx))" for s
      by (simp add: lookup_addDests)
    show "lookupMove (legalMoves (addDests (g\<lparr>legalMoves := Map.empty\<rparr>)
                (Collect (slidingSpec (board g) p y x)))) (key nx ny)
            \<longleftrightarrow> slidingSpec (board g) p y x (ny, nx)" for ny nx
      by (simp add: lookup_addDests_key)
  qed
  show "board NewGame 7 0 = Some (mkPiece ''white'' ''rook'')" by (simp add: position_defs)
  show "\<exists>g'. calculateLegalMoves NewGame 7 0 = Inr g' \<and> legalMoves g' = Map.empty"
    by (simp add: calculateLegalMoves_def addSlidingMoves_def slideRay.simps position_defs Let_def)
qed

text \<open>The witness: after \<^verbatim>\<open>e2e4\<close> the white bishop of \<open>(7, 5)\<close> reaches \<open>(6, 4)\<close> on
  its open diagonal, and not \<open>(6, 6)\<close>, where a pawn of its colour stands.\<close>

theorem sliding_destinations_witness:
  "\<exists>g1 g'. applyMove NewGame 6 4 4 4 = Inr g1
      \<and> board g1 7 5 = Some (mkPiece ''white'' ''bishop'')
      \<and> calculateLegalMoves g1 7 5 = Inr g'
      \<and> slidingSpec (board g1) (mkPiece ''white'' ''bishop'') 7 5 (6, 4)
      \<and> lookupMove (legalMoves g') (key 4 6)
      \<and> \<not> lookupMove (legalMoves g') (key 6 6)"
proof -
  obtain g1 where g1: "applyMove NewGame 6 4 4 4 = Inr g1"
    using applyMove_Inr [of 6 4 4 4 NewGame] by (auto simp add: inBoard_def)
  have i: "inBoard 7 5" by (simp add: inBoard_def)
  have cells: "board g1 7 5 = Some (mkPiece ''white'' ''bishop'')" "board g1 6 4 = None"
    "board g1 6 6 = Some (mkPiece ''white'' ''pawn'')"
    using g1 by (auto simp add: applyMove_def position_defs Let_def)
  have k: "isRook (mkPiece ''white'' ''bishop'') \<or> isBishop (mkPiece ''white'' ''bishop'')
             \<or> isQueen (mkPiece ''white'' ''bishop'')"
    by (simp add: isBishop_def mkPiece_def)
  have r: "raysOf (mkPiece ''white'' ''bishop'') = diagonal"
    by (simp add: raysOf_def isRook_def isBishop_def mkPiece_def)
  obtain g' where g': "calculateLegalMoves g1 7 5 = Inr g'"
    "\<forall>ny nx. lookupMove (legalMoves g') (key nx ny)
        \<longleftrightarrow> slidingSpec (board g1) (mkPiece ''white'' ''bishop'') 7 5 (ny, nx)"
    using sliding_destinations [OF i cells(1) k] by blast
  have "rayFrom (board g1) ''white'' 7 5 (- 1) (- 1) 1 (6, 4)"
    unfolding rayFrom_def using cells(2)
    by (auto simp add: inBoard_def emptyOrOpposing_def intro!: bexI [of _ 1])
  then have s1: "slidingSpec (board g1) (mkPiece ''white'' ''bishop'') 7 5 (6, 4)"
    unfolding slidingSpec_def r diagonal_def by (simp add: mkPiece_def)
  have s2: "\<not> slidingSpec (board g1) (mkPiece ''white'' ''bishop'') 7 5 (6, 6)"
    unfolding slidingSpec_def r diagonal_def rayFrom_def using cells(3)
    by (auto simp add: emptyOrOpposing_def mkPiece_def)
  show ?thesis using g1 cells(1) g' s1 s2 by blast
qed

text \<open>
  \<^bold>\<open>C6.\<close> For a pawn on a square of the board, on any board, the keys that
  \<^verbatim>\<open>calculateLegalMoves\<close> leaves in the map are those of: the square one step forward
  when it is empty; the square two steps forward when the pawn is on its starting rank
  and both squares are empty; each forward diagonal neighbour on the board that holds
  a piece of another colour. The pawn's colour \<open>c\<close> is the one of its symbol, which
  \<^verbatim>\<open>calculateLegalMoves\<close> passes on. On a new game the white pawn of \<open>(6, 4)\<close> reaches
  \<open>(5, 4)\<close> and \<open>(4, 4)\<close> and not \<open>(3, 4)\<close>.
\<close>

theorem pawn_destinations:
  assumes "inBoard y x" "c = ''white'' \<or> c = ''black''" "board g y x = Some p"
    "symbol p = pieces (c @ ''_pawn'')"
  shows "(\<exists>g'. calculateLegalMoves g y x = Inr g'
           \<and> (\<forall>s. lookupMove (legalMoves g') s \<longleftrightarrow>
                 (\<exists>ny nx. s = key nx ny \<and> pawnSpec (board g) c y x (ny, nx)))
           \<and> (\<forall>ny nx. lookupMove (legalMoves g') (key nx ny)
                 \<longleftrightarrow> pawnSpec (board g) c y x (ny, nx)))
         \<and> board NewGame 6 4 = Some (mkPiece ''white'' ''pawn'')
         \<and> (\<exists>g'. calculateLegalMoves NewGame 6 4 = Inr g'
               \<and> lookupMove (legalMoves g') (key 4 5) \<and> lookupMove (legalMoves g') (key 4 4)
               \<and> \<not> lookupMove (legalMoves g') (key 4 3))"
proof (intro conjI)
  show "\<exists>g'. calculateLegalMoves g y x = Inr g'
           \<and> (\<forall>s. lookupMove (legalMoves g') s \<longleftrightarrow>
                 (\<exists>ny nx. s = key nx ny \<and> pawnSpec (board g) c y x (ny, nx)))
           \<and> (\<forall>ny nx. lookupMove (legalMoves g') (key nx ny)
                 \<longleftrightarrow> pawnSpec (board g) c y x (ny, nx))"
  proof (intro exI conjI allI)
    show "calculateLegalMoves g y x =
            Inr (addDests (g\<lparr>legalMoves := Map.empty\<rparr>) (Collect (pawnSpec (board g) c y x)))"
      by (rule calc_pawn [OF assms(1,3,2,4)])
    show "lookupMove (legalMoves (addDests (g\<lparr>legalMoves := Map.empty\<rparr>)
                (Collect (pawnSpec (board g) c y x)))) s
            \<longleftrightarrow> (\<exists>ny nx. s = key nx ny \<and> pawnSpec (board g) c y x (ny, nx))" for s
      by (simp add: lookup_addDests)
    show "lookupMove (legalMoves (addDests (g\<lparr>legalMoves := Map.empty\<rparr>)
                (Collect (pawnSpec (board g) c y x)))) (key nx ny)
            \<longleftrightarrow> pawnSpec (board g) c y x (ny, nx)" for ny nx
      by (simp add: lookup_addDests_key)
  qed
  show "board NewGame 6 4 = Some (mkPiece ''white'' ''pawn'')" by (simp add: position_defs)
  show "\<exists>g'. calculateLegalMoves NewGame 6 4 = Inr g'
               \<and> lookupMove (legalMoves g') (key 4 5) \<and> lookupMove (legalMoves g') (key 4 4)
               \<and> \<not> lookupMove (legalMoves g') (key 4 3)"
    by (simp add: position_defs format_defs play_defs)
qed

text \<open>The witness: the black pawn of \<open>(1, 3)\<close> on a new game, through the general
  statement.\<close>

theorem pawn_destinations_witness:
  "inBoard 1 3 \<and> board NewGame 1 3 = Some (mkPiece ''black'' ''pawn'')
   \<and> (\<exists>g'. calculateLegalMoves NewGame 1 3 = Inr g'
          \<and> pawnSpec (board NewGame) ''black'' 1 3 (2, 3)
          \<and> lookupMove (legalMoves g') (key 3 2)
          \<and> lookupMove (legalMoves g') (key 3 3)
          \<and> \<not> lookupMove (legalMoves g') (key 3 4)
          \<and> \<not> lookupMove (legalMoves g') (key 2 2))"
proof -
  have i: "inBoard 1 3" by (simp add: inBoard_def)
  have b: "board NewGame 1 3 = Some (mkPiece ''black'' ''pawn'')" by (simp add: position_defs)
  have y: "symbol (mkPiece ''black'' ''pawn'') = pieces (''black'' @ ''_pawn'')"
    by (simp add: mkPiece_def)
  obtain g' where g': "calculateLegalMoves NewGame 1 3 = Inr g'"
    "\<forall>ny nx. lookupMove (legalMoves g') (key nx ny)
        \<longleftrightarrow> pawnSpec (board NewGame) ''black'' 1 3 (ny, nx)"
    using pawn_destinations [OF i _ b y] by blast
  have s: "pawnSpec (board NewGame) ''black'' 1 3 (2, 3)"
    "pawnSpec (board NewGame) ''black'' 1 3 (3, 3)"
    "\<not> pawnSpec (board NewGame) ''black'' 1 3 (4, 3)"
    "\<not> pawnSpec (board NewGame) ''black'' 1 3 (2, 2)"
    by (simp_all add: pawnSpec_def opposing_def position_defs Let_def)
  show ?thesis using i b g' s by blast
qed

end
